theory Spec2Isabelle
  imports Complex_Main "HOL-Library.Multiset"
begin

section \<open>Conventions of the embedding\<close>

text \<open>
  The program is \<^verbatim>\<open>grade_management.py\<close>. Its data classes become records, its
  enumeration a datatype, every exception a value of \<open>py_error\<close> returned on the left of
  a sum. Python's \<^verbatim>\<open>int\<close> is \<open>int\<close>, \<^verbatim>\<open>str\<close> is \<open>string\<close>,
  \<^verbatim>\<open>Optional[str]\<close> is \<open>string option\<close>. The library functions follow
  CPython 3.11.
\<close>

datatype py_error = ValueError | TypeError | ZeroDivisionError | StatisticsError

definition bind_err :: "py_error + 'a \<Rightarrow> ('a \<Rightarrow> py_error + 'b) \<Rightarrow> py_error + 'b" where
  "bind_err m f = (case m of Inl e \<Rightarrow> Inl e | Inr v \<Rightarrow> f v)"

subsection \<open>Floating point\<close>

text \<open>
  A Python \<^verbatim>\<open>float\<close> is an IEEE 754 double. The model keeps a float as the
  real number it denotes; every operation computes the exact result and rounds it to
  the nearest double, a tie going to the double with the even significand. So a sum of
  floats is not the exact sum, and \<^verbatim>\<open>0.3\<close> is not three tenths.

  \<open>round_half_even\<close> rounds a real to the nearest integer, ties to even.
\<close>

definition round_half_even :: "real \<Rightarrow> int" where
  "round_half_even x =
     (let f = \<lfloor>x\<rfloor>; d = x - of_int f
      in if d < 1 / 2 then f
         else if 1 / 2 < d then f + 1
         else if even f then f else f + 1)"

text \<open>
  \<open>binade x 0\<close>, for positive \<open>x\<close>, is the exponent \<open>e\<close> with
  \<open>2\<^sup>e \<le> x < 2\<^sup>e\<^sup>+\<^sup>1\<close>, but never less than -1022, the exponent
  of the smallest normal double: below it the spacing of the doubles stays that of the
  subnormal numbers.
\<close>

function binade :: "real \<Rightarrow> int \<Rightarrow> int" where
  "binade x e =
     (if 2 \<le> x then binade (x / 2) (e + 1)
      else if x < 1 \<and> - 1022 < e then binade (x * 2) (e - 1)
      else e)"
  by pat_completeness auto
termination
proof (relation "measure (\<lambda>(x, e). 2 * nat \<lfloor>log 2 (max x 1)\<rfloor> + nat (e + 1022))")
  show "wf (measure (\<lambda>(x, e). 2 * nat \<lfloor>log 2 (max x 1)\<rfloor> + nat (e + 1022)))"
    by simp
next
  fix x :: real and e :: int
  assume x: "2 \<le> x"
  then have "log 2 (x / 2) = log 2 x - 1"
    by (simp add: log_divide)
  moreover from x have "1 \<le> log 2 x"
    using log_le_cancel_iff [of 2 2 x] by simp
  ultimately have "nat \<lfloor>log 2 (x / 2)\<rfloor> + 1 = nat \<lfloor>log 2 x\<rfloor>"
    by simp linarith
  with x show "((x / 2, e + 1), (x, e))
      \<in> measure (\<lambda>(x, e). 2 * nat \<lfloor>log 2 (max x 1)\<rfloor> + nat (e + 1022))"
    by (simp add: max_def) linarith
next
  fix x :: real and e :: int
  assume "\<not> 2 \<le> x" and h: "x < 1 \<and> - 1022 < e"
  then have m: "max x 1 = 1" and "1 \<le> max (x * 2) 1" and "max (x * 2) 1 < 2"
    by (simp_all add: max_def)
  then have "0 \<le> log 2 (max (x * 2) 1)" and "log 2 (max (x * 2) 1) < 1"
    using log_less_cancel_iff [of 2 "max (x * 2) 1" 2] by simp_all
  then have "\<lfloor>log 2 (max (x * 2) 1)\<rfloor> = 0"
    by linarith
  with h m show "((x * 2, e - 1), (x, e))
      \<in> measure (\<lambda>(x, e). 2 * nat \<lfloor>log 2 (max x 1)\<rfloor> + nat (e + 1022))"
    by simp
qed

declare binade.simps [simp del]

text \<open>
  \<open>fl x\<close> is the double nearest to \<open>x\<close>: \<open>x\<close> is scaled so that the doubles of
  its binade are the integers, rounded there, and scaled back. The significand has 53
  bits; numbers below \<open>2\<^sup>-\<^sup>1\<^sup>0\<^sup>2\<^sup>2\<close> round on the grid of the
  subnormal doubles, whose smallest positive member is \<open>2\<^sup>-\<^sup>1\<^sup>0\<^sup>7\<^sup>4\<close>.
  The exponent is not bounded from above: a result beyond the largest double (about
  \<open>1.8 * 10\<^sup>3\<^sup>0\<^sup>8\<close>) would need a subject list of more than
  \<open>10\<^sup>3\<^sup>0\<^sup>0\<close> entries.
\<close>

definition fl :: "real \<Rightarrow> real" where
  "fl x =
     (if x = 0 then 0
      else let q = binade \<bar>x\<bar> 0 - 52
           in of_int (round_half_even (x / 2 powi q)) * 2 powi q)"

text \<open>The float operations \<^verbatim>\<open>a + b\<close>, \<^verbatim>\<open>a - b\<close>, \<^verbatim>\<open>a * b\<close>.\<close>

definition fadd :: "real \<Rightarrow> real \<Rightarrow> real" where
  "fadd a b = fl (a + b)"

definition fsub :: "real \<Rightarrow> real \<Rightarrow> real" where
  "fsub a b = fl (a - b)"

definition fmul :: "real \<Rightarrow> real \<Rightarrow> real" where
  "fmul a b = fl (a * b)"

text \<open>
  True division \<^verbatim>\<open>a / b\<close> of two floats, or of two integers (the quotient of
  two integers is rounded once, as CPython does): raises on a zero divisor.
\<close>

definition py_div :: "real \<Rightarrow> real \<Rightarrow> py_error + real" where
  "py_div a b = (if b = 0 then Inl ZeroDivisionError else Inr (fl (a / b)))"

text \<open>An integer operand of a float operation is converted to the nearest double.\<close>

definition float_of_int :: "int \<Rightarrow> real" where
  "float_of_int i = fl (of_int i)"

text \<open>
  \<^verbatim>\<open>sum(...)\<close> adds from the left, starting at the integer 0; over floats
  every addition rounds.
\<close>

definition py_sum :: "real list \<Rightarrow> real" where
  "py_sum xs = foldl fadd 0 xs"

definition py_sum_int :: "int list \<Rightarrow> int" where
  "py_sum_int xs = foldl (+) 0 xs"

text \<open>
  \<^verbatim>\<open>round(x, 2)\<close> on a float: the exact value of \<open>x\<close> is rounded to the
  nearest multiple of 0.01, a tie going to the even neighbour, and the double nearest
  to that decimal is returned.
\<close>

definition py_round2 :: "real \<Rightarrow> real" where
  "py_round2 x = fl (of_int (round_half_even (x * 100)) / 100)"


section \<open>Data model\<close>

text \<open>
  \<^verbatim>\<open>GradeLevel\<close>: the members in their order of definition. Only \<^verbatim>\<open>min_score\<close>
  matters to the computations; the label, icon and colour are presentation, and a label
  stands in one-to-one correspondence with its member.
\<close>

datatype GradeLevel = OUTSTANDING | EXCELLENT | GOOD | AVERAGE | WEAK | POOR

fun min_score :: "GradeLevel \<Rightarrow> real" where
  "min_score OUTSTANDING = 9"
| "min_score EXCELLENT = 8"
| "min_score GOOD = 13 / 2"
| "min_score AVERAGE = 5"
| "min_score WEAK = 7 / 2"
| "min_score POOR = 0"

definition GradeLevel_members :: "GradeLevel list" where
  "GradeLevel_members = [OUTSTANDING, EXCELLENT, GOOD, AVERAGE, WEAK, POOR]"

text \<open>
  The loop \<^verbatim>\<open>for level in GradeLevel: if x >= level.min_score: return level\<close>
  followed by \<^verbatim>\<open>return GradeLevel.POOR\<close>.
\<close>

definition level_of :: "real \<Rightarrow> GradeLevel" where
  "level_of x =
     (case find (\<lambda>level. min_score level \<le> x) GradeLevel_members of
        Some level \<Rightarrow> level
      | None \<Rightarrow> POOR)"

record SubjectInfo =
  name :: string
  score :: real
  weight :: int
  category :: "string option"
  notes_text :: "string option"

definition SubjectInfo_post_init :: "SubjectInfo \<Rightarrow> py_error + SubjectInfo" where
  "SubjectInfo_post_init s =
     (if \<not> (0 \<le> score s \<and> score s \<le> 10) then Inl ValueError
      else if weight s \<notin> set [1, 2, 3] then Inl ValueError
      else Inr s)"

definition weighted_score :: "SubjectInfo \<Rightarrow> real" where
  "weighted_score s = fmul (score s) (float_of_int (weight s))"

record StudentInfo =
  student_id :: string
  full_name :: string
  class_name :: string
  academic_year :: string
  date_of_birth :: "string option"
  gender :: "string option"
  email :: "string option"
  phone :: "string option"

text \<open>
  \<^verbatim>\<open>re.match(r'^[A-Z0-9]{6,10}$', student_id)\<close>: six to ten capitals or digits;
  \<^verbatim>\<open>$\<close> also matches just before one final newline.
\<close>

definition id_char :: "char \<Rightarrow> bool" where
  "id_char c = (c \<in> set ''ABCDEFGHIJKLMNOPQRSTUVWXYZ0123456789'')"

definition student_id_matches :: "string \<Rightarrow> bool" where
  "student_id_matches s =
     (let body = (if s \<noteq> [] \<and> last s = CHR 0x0A then butlast s else s)
      in 6 \<le> length body \<and> length body \<le> 10 \<and> list_all id_char body)"

definition StudentInfo_post_init :: "StudentInfo \<Rightarrow> py_error + StudentInfo" where
  "StudentInfo_post_init s =
     (if \<not> student_id_matches (student_id s) then Inl ValueError else Inr s)"

record AcademicRecord =
  student :: StudentInfo
  semester :: string
  exam_type :: string
  subjects :: "SubjectInfo list"
  created_at :: string
  record_id :: string

text \<open>
  A record as the constructors let it come into being: the student and every subject
  passed their \<^verbatim>\<open>__post_init__\<close> check.
\<close>

definition valid_subjects :: "SubjectInfo list \<Rightarrow> bool" where
  "valid_subjects xs = list_all (\<lambda>s. SubjectInfo_post_init s = Inr s) xs"

definition valid_record :: "AcademicRecord \<Rightarrow> bool" where
  "valid_record r =
     (StudentInfo_post_init (student r) = Inr (student r) \<and> valid_subjects (subjects r))"


section \<open>Grade point averages\<close>

definition simple_gpa :: "AcademicRecord \<Rightarrow> py_error + real" where
  "simple_gpa r =
     (if subjects r = [] then Inr 0
      else bind_err (py_div (py_sum (map score (subjects r)))
                            (float_of_int (int (length (subjects r)))))
             (\<lambda>q. Inr (py_round2 q)))"

definition weighted_gpa :: "AcademicRecord \<Rightarrow> py_error + real" where
  "weighted_gpa r =
     (if subjects r = [] then Inr 0
      else let total_weighted = py_sum (map weighted_score (subjects r));
               total_weights = py_sum_int (map weight (subjects r))
           in bind_err (py_div total_weighted (float_of_int total_weights))
                (\<lambda>q. Inr (py_round2 q)))"

definition grade_level :: "AcademicRecord \<Rightarrow> py_error + GradeLevel" where
  "grade_level r = bind_err (weighted_gpa r) (\<lambda>gpa. Inr (level_of gpa))"


section \<open>Statistics engine\<close>

text \<open>
  The values a \<^verbatim>\<open>dict\<close> of the program holds: \<^verbatim>\<open>None\<close>, integers, floats and
  strings. A dictionary with string keys is a map; \<^verbatim>\<open>d.get(k, default)\<close> is
  \<open>dict_get\<close>, and \<^verbatim>\<open>d.get(k)\<close> has the default \<^verbatim>\<open>None\<close>.
\<close>

datatype pyval = PNone | PInt int | PFloat real | PStr string

definition dict_get :: "(string \<rightharpoonup> pyval) \<Rightarrow> string \<Rightarrow> pyval \<Rightarrow> pyval" where
  "dict_get d k dflt = (case d k of None \<Rightarrow> dflt | Some v \<Rightarrow> v)"

text \<open>
  A value used as a number (in a comparison with a number, or in arithmetic):
  \<^verbatim>\<open>None\<close> and strings raise \<^verbatim>\<open>TypeError\<close>.
\<close>

definition py_real :: "pyval \<Rightarrow> py_error + real" where
  "py_real v =
     (case v of PInt i \<Rightarrow> Inr (of_int i) | PFloat x \<Rightarrow> Inr x | _ \<Rightarrow> Inl TypeError)"

text \<open>\<^verbatim>\<open>v == x\<close> for a float \<open>x\<close>: never raises, unequal types compare unequal.\<close>

definition py_eq_float :: "pyval \<Rightarrow> real \<Rightarrow> bool" where
  "py_eq_float v x = (case v of PInt i \<Rightarrow> of_int i = x | PFloat y \<Rightarrow> y = x | _ \<Rightarrow> False)"

text \<open>
  \<^verbatim>\<open>min(xs, key=f)\<close> and \<^verbatim>\<open>max(xs, key=f)\<close>: one pass from the left that
  replaces the candidate only by a strictly better element; \<^verbatim>\<open>ValueError\<close> on an
  empty argument.
\<close>

fun min_from :: "('a \<Rightarrow> real) \<Rightarrow> 'a \<Rightarrow> 'a list \<Rightarrow> 'a" where
  "min_from f best [] = best"
| "min_from f best (x # xs) = min_from f (if f x < f best then x else best) xs"

fun max_from :: "('a \<Rightarrow> real) \<Rightarrow> 'a \<Rightarrow> 'a list \<Rightarrow> 'a" where
  "max_from f best [] = best"
| "max_from f best (x # xs) = max_from f (if f best < f x then x else best) xs"

definition py_min_key :: "('a \<Rightarrow> real) \<Rightarrow> 'a list \<Rightarrow> py_error + 'a" where
  "py_min_key f xs = (case xs of [] \<Rightarrow> Inl ValueError | x # rest \<Rightarrow> Inr (min_from f x rest))"

definition py_max_key :: "('a \<Rightarrow> real) \<Rightarrow> 'a list \<Rightarrow> py_error + 'a" where
  "py_max_key f xs = (case xs of [] \<Rightarrow> Inl ValueError | x # rest \<Rightarrow> Inr (max_from f x rest))"

text \<open>
  The functions of Python's \<^verbatim>\<open>statistics\<close> module that the engine calls, with the
  \<^verbatim>\<open>StatisticsError\<close> each raises on too few data points. The module works on
  the data as exact fractions and rounds once at the end: the mean is the exact mean
  rounded to a double, the variance the exact sum of squared deviations (computed as
  \<^verbatim>\<open>(count * sxx - sx * sx) / count\<close>) over \<open>n - 1\<close>, rounded, and the standard
  deviation the correctly rounded root of that exact quotient. The median of an even
  number of floats is computed in floats.
\<close>

definition statistics_mean :: "real list \<Rightarrow> py_error + real" where
  "statistics_mean xs =
     (if length xs < 1 then Inl StatisticsError
      else Inr (fl (sum_list xs / of_nat (length xs))))"

definition statistics_median :: "real list \<Rightarrow> py_error + real" where
  "statistics_median xs =
     (let data = sort xs; n = length data
      in if n = 0 then Inl StatisticsError
         else if n mod 2 = 1 then Inr (data ! (n div 2))
         else Inr (fl (fadd (data ! (n div 2 - 1)) (data ! (n div 2)) / 2)))"

definition exact_variance :: "real list \<Rightarrow> real" where
  "exact_variance xs =
     (let count = of_nat (length xs); sx = sum_list xs; sxx = sum_list (map (\<lambda>x. x * x) xs);
          ssd = (count * sxx - sx * sx) / count
      in ssd / of_nat (length xs - 1))"

definition statistics_variance :: "real list \<Rightarrow> py_error + real" where
  "statistics_variance xs =
     (if length xs < 2 then Inl StatisticsError else Inr (fl (exact_variance xs)))"

definition statistics_stdev :: "real list \<Rightarrow> py_error + real" where
  "statistics_stdev xs =
     (if length xs < 2 then Inl StatisticsError else Inr (fl (sqrt (exact_variance xs))))"

definition count_where :: "(real \<Rightarrow> bool) \<Rightarrow> real list \<Rightarrow> int" where
  "count_where P xs = py_sum_int (map (\<lambda>s. 1) (filter P xs))"

text \<open>
  \<^verbatim>\<open>calculate_statistics\<close>: the empty dictionary for no subjects; otherwise the
  entries of the dictionary display, evaluated in the order they are written.
\<close>

definition calculate_statistics :: "SubjectInfo list \<Rightarrow> py_error + (string \<rightharpoonup> pyval)" where
  "calculate_statistics subjs =
     (if subjs = [] then Inr Map.empty
      else
        let scores = map score subjs; n = length scores in
        bind_err (statistics_mean scores) (\<lambda>mean.
        bind_err (statistics_median scores) (\<lambda>median.
        bind_err (if 1 < n then bind_err (statistics_variance scores) (\<lambda>v. Inr (PFloat v))
                  else Inr (PInt 0)) (\<lambda>variance.
        bind_err (if 1 < n then bind_err (statistics_stdev scores) (\<lambda>v. Inr (PFloat v))
                  else Inr (PInt 0)) (\<lambda>std_dev.
        bind_err (py_min_key (\<lambda>x. x) scores) (\<lambda>mn.
        bind_err (py_max_key (\<lambda>x. x) scores) (\<lambda>mx.
        bind_err (py_min_key score subjs) (\<lambda>min_s.
        bind_err (py_max_key score subjs) (\<lambda>max_s.
        bind_err (py_div (of_int (count_where (\<lambda>s. 8 \<le> s) scores)) (of_nat n)) (\<lambda>exc.
        bind_err (py_div (of_int (count_where (\<lambda>s. 5 \<le> s) scores)) (of_nat n)) (\<lambda>pass.
        bind_err (if 1 < n \<and> 0 < mean
                  then bind_err (statistics_stdev scores) (\<lambda>sd.
                       bind_err (py_div sd mean) (\<lambda>q. Inr (PFloat (fsub 100 (fmul q 100)))))
                  else Inr (PInt (100 - 0))) (\<lambda>consistency.
        Inr [''count'' \<mapsto> PInt (int n),
             ''mean'' \<mapsto> PFloat mean,
             ''median'' \<mapsto> PFloat median,
             ''variance'' \<mapsto> variance,
             ''std_dev'' \<mapsto> std_dev,
             ''min'' \<mapsto> PFloat mn,
             ''max'' \<mapsto> PFloat mx,
             ''range'' \<mapsto> PFloat (fsub mx mn),
             ''min_subject'' \<mapsto> PStr (name min_s),
             ''max_subject'' \<mapsto> PStr (name max_s),
             ''excellent_count'' \<mapsto> PInt (count_where (\<lambda>s. 9 \<le> s) scores),
             ''good_count'' \<mapsto> PInt (count_where (\<lambda>s. 8 \<le> s \<and> s < 9) scores),
             ''average_count'' \<mapsto> PInt (count_where (\<lambda>s. 5 \<le> s \<and> s < 8) scores),
             ''poor_count'' \<mapsto> PInt (count_where (\<lambda>s. s < 5) scores),
             ''excellence_rate'' \<mapsto> PFloat (fmul exc 100),
             ''pass_rate'' \<mapsto> PFloat (fmul pass 100),
             ''consistency_score'' \<mapsto> consistency]))))))))))))"


section \<open>Insight generator\<close>

text \<open>
  One constructor for each string the generator can append, in the order of the source:
  the four remarks on the average (outstanding, good, fair, needs improvement), the two
  on consistency (even, uneven), the perfect-score remark with the value of
  \<^verbatim>\<open>stats.get('max_subject')\<close> it interpolates, the weak-subject remark with
  \<^verbatim>\<open>stats.get('min_subject')\<close>, and the excellence remark with the rate it formats.
\<close>

datatype insight =
    Gpa_outstanding | Gpa_good | Gpa_fair | Gpa_needs_improvement
  | Consistency_even | Consistency_uneven
  | Perfect_score pyval
  | Prioritise pyval
  | Excellence_share pyval

definition generate_insights :: "(string \<rightharpoonup> pyval) \<Rightarrow> AcademicRecord \<Rightarrow> py_error + insight list" where
  "generate_insights stats r =
     bind_err (weighted_gpa r) (\<lambda>gpa.
     let insights1 =
           [if 9 \<le> gpa then Gpa_outstanding
            else if 8 \<le> gpa then Gpa_good
            else if 13 / 2 \<le> gpa then Gpa_fair
            else Gpa_needs_improvement];
         consistency = dict_get stats ''consistency_score'' (PInt 0) in
     bind_err (py_real consistency) (\<lambda>c.
     let insights2 =
           (if 90 \<le> c then insights1 @ [Consistency_even]
            else if c < 70 then insights1 @ [Consistency_uneven]
            else insights1);
         insights3 =
           (if py_eq_float (dict_get stats ''max'' PNone) 10
            then insights2 @ [Perfect_score (dict_get stats ''max_subject'' PNone)]
            else insights2) in
     bind_err (py_real (dict_get stats ''min'' PNone)) (\<lambda>mn.
     let insights4 =
           (if mn < 5 then insights3 @ [Prioritise (dict_get stats ''min_subject'' PNone)]
            else insights3);
         excellence = dict_get stats ''excellence_rate'' (PInt 0) in
     bind_err (py_real excellence) (\<lambda>e.
     Inr (if 70 \<le> e then insights4 @ [Excellence_share excellence] else insights4)))))"


section \<open>Performance projector\<close>

text \<open>
  The labels of the result: \<open>Cao\<close> (high), \<open>Trung_binh\<close> (medium), \<open>Thap\<close> (low) for
  the confidence; \<open>Duy_tri\<close> (maintain), \<open>Cai_thien\<close> (improve) for the recommendation.
\<close>

datatype confidence_label = Cao | Trung_binh | Thap

datatype recommendation_label = Duy_tri | Cai_thien

record prediction =
  current_gpa :: real
  predicted_next :: real
  improvement_potential :: real
  confidence :: confidence_label
  recommendation :: recommendation_label
  focus_areas :: "string list"

definition predict_performance :: "AcademicRecord \<Rightarrow> py_error + prediction" where
  "predict_performance r =
     bind_err (calculate_statistics (subjects r)) (\<lambda>stats.
     bind_err (weighted_gpa r) (\<lambda>gpa.
     bind_err (py_real (dict_get stats ''consistency_score'' (PInt 0))) (\<lambda>consistency.
     bind_err (py_div consistency 100) (\<lambda>ratio.
     let improvement = fmul (fmul (fsub 10 gpa) ratio) (fl (3 / 10));
         predicted = min 10 (fadd gpa improvement)
     in Inr \<lparr>current_gpa = gpa,
             predicted_next = py_round2 predicted,
             improvement_potential = py_round2 improvement,
             confidence = (if 80 < consistency then Cao
                           else if 60 < consistency then Trung_binh else Thap),
             recommendation = (if 8 \<le> gpa then Duy_tri else Cai_thien),
             focus_areas = map name (take 3 (sort_key score (subjects r)))\<rparr>))))"


section \<open>Record store\<close>

text \<open>
  The three tables of \<^verbatim>\<open>initialize_database\<close>, each a list of rows in rowid order.
  The columns \<^verbatim>\<open>NOT NULL\<close> hold strings, the nullable ones optional strings. The
  \<^verbatim>\<open>grade_level\<close> column holds the label of a level, represented by the level.
  The autoincremented \<^verbatim>\<open>id\<close> of a subject row is its position in the list.
\<close>

record students_row =
  st_student_id :: string
  st_full_name :: string
  st_class_name :: string
  st_academic_year :: string
  st_date_of_birth :: "string option"
  st_gender :: "string option"
  st_email :: "string option"
  st_phone :: "string option"
  st_created_at :: string

record subjects_row =
  sj_student_id :: string
  sj_record_id :: string
  sj_subject_name :: string
  sj_score :: real
  sj_weight :: int
  sj_category :: "string option"
  sj_notes :: "string option"

record academic_records_row =
  ar_record_id :: string
  ar_student_id :: string
  ar_semester :: string
  ar_exam_type :: string
  ar_simple_gpa :: real
  ar_weighted_gpa :: real
  ar_grade_level :: GradeLevel
  ar_total_subjects :: nat
  ar_created_at :: string

record tables =
  students :: "students_row list"
  subject_rows :: "subjects_row list"
  academic_records :: "academic_records_row list"

text \<open>
  The \<^verbatim>\<open>sqlite3\<close> connection the manager keeps open. \<open>on_disk\<close> is the committed
  database; \<open>in_transaction\<close> is what statements on this connection read and write: the
  first \<^verbatim>\<open>INSERT\<close> opens a transaction implicitly, \<^verbatim>\<open>commit()\<close> makes its writes
  durable, and nothing but \<^verbatim>\<open>rollback()\<close> (which the program never calls) or closing
  the connection discards them.
\<close>

record connection =
  on_disk :: tables
  in_transaction :: tables

definition empty_tables :: tables where
  "empty_tables = \<lparr>students = [], subject_rows = [], academic_records = []\<rparr>"

definition initialize_database :: connection where
  "initialize_database = \<lparr>on_disk = empty_tables, in_transaction = empty_tables\<rparr>"

text \<open>
  \<^verbatim>\<open>INSERT OR REPLACE\<close> on a table with a primary key: the rows with the new row's
  key are deleted and the new row is added.
\<close>

definition replace_student :: "students_row \<Rightarrow> students_row list \<Rightarrow> students_row list" where
  "replace_student row rows =
     filter (\<lambda>x. st_student_id x \<noteq> st_student_id row) rows @ [row]"

definition replace_record ::
  "academic_records_row \<Rightarrow> academic_records_row list \<Rightarrow> academic_records_row list" where
  "replace_record row rows =
     filter (\<lambda>x. ar_record_id x \<noteq> ar_record_id row) rows @ [row]"

definition student_row_of :: "AcademicRecord \<Rightarrow> students_row" where
  "student_row_of r =
     \<lparr>st_student_id = student_id (student r),
      st_full_name = full_name (student r),
      st_class_name = class_name (student r),
      st_academic_year = academic_year (student r),
      st_date_of_birth = date_of_birth (student r),
      st_gender = gender (student r),
      st_email = email (student r),
      st_phone = phone (student r),
      st_created_at = created_at r\<rparr>"

definition subject_row_of :: "AcademicRecord \<Rightarrow> SubjectInfo \<Rightarrow> subjects_row" where
  "subject_row_of r s =
     \<lparr>sj_student_id = student_id (student r),
      sj_record_id = record_id r,
      sj_subject_name = name s,
      sj_score = score s,
      sj_weight = weight s,
      sj_category = category s,
      sj_notes = notes_text s\<rparr>"

text \<open>
  The parameters of the last statement; the properties it reads can raise, and the
  exception is caught with the others.
\<close>

definition summary_row_of :: "AcademicRecord \<Rightarrow> py_error + academic_records_row" where
  "summary_row_of r =
     bind_err (simple_gpa r) (\<lambda>sg.
     bind_err (weighted_gpa r) (\<lambda>wg.
     bind_err (grade_level r) (\<lambda>lvl.
     Inr \<lparr>ar_record_id = record_id r,
          ar_student_id = student_id (student r),
          ar_semester = semester r,
          ar_exam_type = exam_type r,
          ar_simple_gpa = sg,
          ar_weighted_gpa = wg,
          ar_grade_level = lvl,
          ar_total_subjects = length (subjects r),
          ar_created_at = created_at r\<rparr>)))"

text \<open>
  The store can fail at any statement (a full disk, an I/O error). The statements of one
  call of \<^verbatim>\<open>save_record\<close> are numbered from 0: the student upsert, one insert for
  each subject, the summary upsert, the commit. \<open>fault = Some k\<close> makes statement \<open>k\<close>
  raise; \<open>fault = None\<close> lets every statement succeed.

  The loop over the subjects: the rows written so far, and whether the loop finished.
\<close>

fun insert_subjects ::
  "nat option \<Rightarrow> nat \<Rightarrow> AcademicRecord \<Rightarrow> SubjectInfo list \<Rightarrow> subjects_row list
     \<Rightarrow> bool \<times> subjects_row list" where
  "insert_subjects fault k r [] rows = (True, rows)"
| "insert_subjects fault k r (s # rest) rows =
     (if fault = Some k then (False, rows)
      else insert_subjects fault (Suc k) r rest (rows @ [subject_row_of r s]))"

text \<open>
  \<^verbatim>\<open>save_record\<close>: \<^verbatim>\<open>True\<close> after the commit; on any exception the handler
  prints and returns \<^verbatim>\<open>False\<close>, leaving the connection as the statements executed
  so far have left it.
\<close>

definition save_record :: "nat option \<Rightarrow> connection \<Rightarrow> AcademicRecord \<Rightarrow> bool \<times> connection" where
  "save_record fault c r =
     (if fault = Some 0 then (False, c)
      else
        let t0 = in_transaction c;
            t1 = t0\<lparr>students := replace_student (student_row_of r) (students t0)\<rparr>;
            (finished, rows) = insert_subjects fault 1 r (subjects r) (subject_rows t1);
            t2 = t1\<lparr>subject_rows := rows\<rparr>;
            k = Suc (length (subjects r))
        in if \<not> finished then (False, c\<lparr>in_transaction := t2\<rparr>)
           else case summary_row_of r of
                  Inl e \<Rightarrow> (False, c\<lparr>in_transaction := t2\<rparr>)
                | Inr row \<Rightarrow>
                    if fault = Some k then (False, c\<lparr>in_transaction := t2\<rparr>)
                    else
                      let t3 = t2\<lparr>academic_records := replace_record row (academic_records t2)\<rparr>
                      in if fault = Some (Suc k) then (False, c\<lparr>in_transaction := t3\<rparr>)
                         else (True, \<lparr>on_disk = t3, in_transaction = t3\<rparr>))"

text \<open>
  \<^verbatim>\<open>load_record_by_id\<close>: the first row of the join of \<^verbatim>\<open>students\<close> with
  \<^verbatim>\<open>academic_records\<close> for the record id, then the subject rows of that id in rowid
  order. Both constructors run their checks again; any exception gives \<^verbatim>\<open>None\<close>.
\<close>

definition joined_rows :: "tables \<Rightarrow> string \<Rightarrow> (students_row \<times> academic_records_row) list" where
  "joined_rows t rid =
     concat (map (\<lambda>ar. map (\<lambda>s. (s, ar))
                          (filter (\<lambda>s. st_student_id s = ar_student_id ar) (students t)))
                 (filter (\<lambda>ar. ar_record_id ar = rid) (academic_records t)))"

fun load_subjects :: "subjects_row list \<Rightarrow> py_error + SubjectInfo list" where
  "load_subjects [] = Inr []"
| "load_subjects (j # js) =
     bind_err (SubjectInfo_post_init
                 \<lparr>name = sj_subject_name j, score = sj_score j, weight = sj_weight j,
                  category = sj_category j, notes_text = sj_notes j\<rparr>) (\<lambda>s.
     bind_err (load_subjects js) (\<lambda>rest. Inr (s # rest)))"

definition load_record_by_id :: "connection \<Rightarrow> string \<Rightarrow> AcademicRecord option" where
  "load_record_by_id c rid =
     (case joined_rows (in_transaction c) rid of
        [] \<Rightarrow> None
      | (s, ar) # _ \<Rightarrow>
          (case StudentInfo_post_init
                  \<lparr>student_id = st_student_id s, full_name = st_full_name s,
                   class_name = st_class_name s, academic_year = st_academic_year s,
                   date_of_birth = st_date_of_birth s, gender = st_gender s,
                   email = st_email s, phone = st_phone s\<rparr> of
             Inl e \<Rightarrow> None
           | Inr stud \<Rightarrow>
               (case load_subjects
                       (filter (\<lambda>j. sj_record_id j = rid) (subject_rows (in_transaction c))) of
                  Inl e \<Rightarrow> None
                | Inr subs \<Rightarrow>
                    Some \<lparr>student = stud, semester = ar_semester ar,
                          exam_type = ar_exam_type ar, subjects = subs,
                          created_at = ar_created_at ar, record_id = rid\<rparr>)))"


section \<open>Reference notions the specification uses\<close>

text \<open>
  The arithmetic mean of the scores and the weighted mean, written as the specification
  words them, and what it means for \<open>y\<close> to be \<open>x\<close> rounded to two decimal places: \<open>y\<close>
  has at most two decimals and no number with two decimals is nearer to \<open>x\<close>.
\<close>

definition spec_mean_score :: "SubjectInfo list \<Rightarrow> real" where
  "spec_mean_score xs = (\<Sum>s\<leftarrow>xs. score s) / of_nat (length xs)"

definition spec_weighted_mean :: "SubjectInfo list \<Rightarrow> real" where
  "spec_weighted_mean xs =
     (\<Sum>s\<leftarrow>xs. score s * of_int (weight s)) / (\<Sum>s\<leftarrow>xs. of_int (weight s))"

definition rounded_to_2_decimals :: "real \<Rightarrow> real \<Rightarrow> bool" where
  "rounded_to_2_decimals x y = (of_int \<lfloor>y * 100\<rfloor> = y * 100 \<and> \<bar>y - x\<bar> \<le> 1 / 200)"

text \<open>
  The same two means as double precision computes them: the terms are added one after
  the other, every addition, product and quotient rounded to a double.
\<close>

fun double_sum_upto :: "real list \<Rightarrow> nat \<Rightarrow> real" where
  "double_sum_upto xs 0 = 0"
| "double_sum_upto xs (Suc n) = fl (double_sum_upto xs n + xs ! n)"

definition double_mean_score :: "SubjectInfo list \<Rightarrow> real" where
  "double_mean_score xs =
     fl (double_sum_upto (map score xs) (length xs) / fl (of_nat (length xs)))"

definition double_weighted_mean :: "SubjectInfo list \<Rightarrow> real" where
  "double_weighted_mean xs =
     fl (double_sum_upto (map (\<lambda>s. fl (score s * fl (of_int (weight s)))) xs) (length xs)
         / fl (of_int (\<Sum>s\<leftarrow>xs. weight s)))"

text \<open>
  The first element, in list order, whose key no element undercuts (respectively
  exceeds).
\<close>

definition first_attaining_min :: "('a \<Rightarrow> real) \<Rightarrow> 'a list \<Rightarrow> 'a option" where
  "first_attaining_min f xs = find (\<lambda>y. list_all (\<lambda>z. f y \<le> f z) xs) xs"

definition first_attaining_max :: "('a \<Rightarrow> real) \<Rightarrow> 'a list \<Rightarrow> 'a option" where
  "first_attaining_max f xs = find (\<lambda>y. list_all (\<lambda>z. f z \<le> f y) xs) xs"

text \<open>
  \<open>zs\<close> is \<open>xs\<close> in ascending order of score with ties in input order: a rearrangement
  of \<open>xs\<close>, sorted by score, in which the entries of each score keep the order they
  have in \<open>xs\<close>.
\<close>

definition stable_ascending :: "SubjectInfo list \<Rightarrow> SubjectInfo list \<Rightarrow> bool" where
  "stable_ascending xs zs =
     (mset zs = mset xs \<and> sorted (map score zs) \<and>
      list_all (\<lambda>s. filter (\<lambda>t. score t = score s) zs = filter (\<lambda>t. score t = score s) xs) xs)"

text \<open>
  The sample variance, the squared deviations from the mean over \<open>N - 1\<close>, and the
  sample standard deviation, its root.
\<close>

definition sample_variance :: "real list \<Rightarrow> real" where
  "sample_variance xs =
     (\<Sum>x\<leftarrow>xs. (x - sum_list xs / of_nat (length xs))\<^sup>2) / of_nat (length xs - 1)"

definition sample_std_dev :: "real list \<Rightarrow> real" where
  "sample_std_dev xs = sqrt (sample_variance xs)"


section \<open>Sample data\<close>

definition student_an :: StudentInfo where
  "student_an =
     \<lparr>student_id = ''HS2024A1'', full_name = ''Nguyen Van An'', class_name = ''10A1'',
      academic_year = ''2025-2026'', date_of_birth = None, gender = None,
      email = None, phone = None\<rparr>"

definition subject_of :: "string \<Rightarrow> real \<Rightarrow> int \<Rightarrow> SubjectInfo" where
  "subject_of n s w = \<lparr>name = n, score = s, weight = w, category = None, notes_text = None\<rparr>"

definition record_of :: "string \<Rightarrow> SubjectInfo list \<Rightarrow> AcademicRecord" where
  "record_of rid subjs =
     \<lparr>student = student_an, semester = ''Hoc ky I'', exam_type = ''Cuoi ky'',
      subjects = subjs, created_at = ''2026-01-15T08:30:00'', record_id = rid\<rparr>"

definition record_empty :: AcademicRecord where
  "record_empty = record_of ''0a1b2c3d4e5f'' []"

definition record_three :: AcademicRecord where
  "record_three =
     record_of ''111111111111''
       [subject_of ''Toan'' 10 3, subject_of ''Van'' 8 2, subject_of ''Anh'' 7 1]"

text \<open>A tie at the second decimal: the scores average 7.875, the weighted scores 8.0625.\<close>

definition record_half :: AcademicRecord where
  "record_half =
     record_of ''444444444444'' [subject_of ''Toan'' (33 / 4) 3, subject_of ''Van'' (15 / 2) 1]"

text \<open>
  Two scores whose float sum loses the smaller one: \<open>0.25 + 2\<^sup>-\<^sup>6\<^sup>0\<close> rounds
  to \<open>0.25\<close>.
\<close>

definition record_tiny :: AcademicRecord where
  "record_tiny =
     record_of ''555555555555'' [subject_of ''Toan'' (1 / 4) 1, subject_of ''Van'' (1 / 2 ^ 60) 1]"

definition record_one :: AcademicRecord where
  "record_one = record_of ''222222222222'' [subject_of ''Toan'' 8 2]"

definition subjects_art :: "SubjectInfo list" where
  "subjects_art = [subject_of ''My thuat'' 4 1]"

definition subjects_zero :: "SubjectInfo list" where
  "subjects_zero = [subject_of ''Toan'' 0 3, subject_of ''Van'' 0 2]"

text \<open>Scores whose exact mean, \<open>2\<^sup>-\<^sup>1\<^sup>0\<^sup>7\<^sup>5\<close>, is below the smallest double.\<close>

definition subjects_underflow :: "SubjectInfo list" where
  "subjects_underflow = [subject_of ''Toan'' 0 1, subject_of ''Van'' (1 / 2 ^ 1074) 1]"

definition subjects_spread :: "SubjectInfo list" where
  "subjects_spread = [subject_of ''Toan'' 2 1, subject_of ''Van'' 4 1, subject_of ''Anh'' 6 1]"

definition subjects_ties :: "SubjectInfo list" where
  "subjects_ties =
     [subject_of ''Toan'' 7 3, subject_of ''Van'' 5 2, subject_of ''Anh'' 9 2,
      subject_of ''Ly'' 5 1, subject_of ''Hoa'' 9 1, subject_of ''Sinh'' 3 1,
      subject_of ''Su'' 3 1]"

definition record_ties :: AcademicRecord where
  "record_ties = record_of ''333333333333'' subjects_ties"

text \<open>
  Two calls on a fresh database: saving \<open>record_one\<close> with the summary upsert (statement
  2 of that call) failing, then saving \<open>record_one\<close> again with no failure.
\<close>

definition after_failed_save :: "bool \<times> connection" where
  "after_failed_save = save_record (Some 2) initialize_database record_one"

definition after_retry :: "bool \<times> connection" where
  "after_retry = save_record None (snd after_failed_save) record_one"

text \<open>Saving \<open>record_three\<close> twice on a fresh database, no statement failing.\<close>

definition saved_once :: "bool \<times> connection" where
  "saved_once = save_record None initialize_database record_three"

definition saved_twice :: "bool \<times> connection" where
  "saved_twice = save_record None (snd saved_once) record_three"


section \<open>Rounding to a double\<close>

lemma p2_pos: "0 < (2::real) powi k"
  by simp

lemma p2_mono: "a \<le> b \<Longrightarrow> (2::real) powi a \<le> 2 powi b"
  by (rule power_int_increasing) simp_all

lemma p2_strict: "a < b \<Longrightarrow> (2::real) powi a < 2 powi b"
  by (rule power_int_strict_increasing) simp_all

lemma p2_add: "(2::real) powi (a + b) = 2 powi a * 2 powi b"
  by (rule power_int_add) simp

lemma p2_succ: "(2::real) powi (k + 1) = 2 * 2 powi k"
  by (simp add: p2_add)

lemma p2_div: "(2::real) powi a / 2 powi b = 2 powi (a - b)"
  by (simp add: power_int_diff)

lemma p2_53: "2 ^ 53 * (2::real) powi (e - 52) = 2 powi (e + 1)"
proof -
  have "(2::real) powi (e + 1) = 2 powi ((e - 52) + 53)"
    by (rule arg_cong [where f = "\<lambda>k. 2 powi k"]) simp
  also have "\<dots> = 2 powi (e - 52) * 2 powi 53" by (rule p2_add)
  finally show ?thesis by simp
qed

lemma p2_52: "2 ^ 52 * (2::real) powi (e - 52) = 2 powi e"
proof -
  have "(2::real) powi e = 2 powi ((e - 52) + 52)"
    by (rule arg_cong [where f = "\<lambda>k. 2 powi k"]) simp
  also have "\<dots> = 2 powi (e - 52) * 2 powi 52" by (rule p2_add)
  finally show ?thesis by simp
qed

lemma p2_pred: "(2::real) powi (k - 1) = 2 powi k / 2"
  using p2_succ [of "k - 1"] by simp

lemma binade_inv:
  "0 < x \<Longrightarrow> - 1022 \<le> e \<Longrightarrow>
     - 1022 \<le> binade x e \<and> x * 2 powi e < 2 powi (binade x e + 1)
     \<and> (binade x e = - 1022 \<or> 2 powi binade x e \<le> x * 2 powi e)"
proof (induction x e rule: binade.induct)
  case (1 x e)
  show ?case
  proof (cases "2 \<le> x")
    case True
    then have b: "binade x e = binade (x / 2) (e + 1)"
      by (subst binade.simps) simp
    have "x / 2 * 2 powi (e + 1) = x * 2 powi e"
      by (simp add: p2_succ)
    with "1.IH"(1) [OF True] "1.prems" True show ?thesis
      unfolding b by simp
  next
    case False
    show ?thesis
    proof (cases "x < 1 \<and> - 1022 < e")
      case True
      with False have b: "binade x e = binade (x * 2) (e - 1)"
        by (subst binade.simps) simp
      have "x * 2 * 2 powi (e - 1) = x * 2 powi e"
        by (simp add: p2_pred)
      with "1.IH"(2) [OF False True] "1.prems" True show ?thesis
        unfolding b by simp
    next
      case neither: False
      have b: "binade x e = e"
        using False neither by (subst binade.simps) auto
      from False have "x * 2 powi e < 2 * 2 powi e"
        by (simp add: p2_pos)
      moreover have "e = - 1022 \<or> 2 powi e \<le> x * 2 powi e"
        using neither "1.prems" by (auto simp: p2_pos)
      ultimately show ?thesis
        unfolding b using "1.prems" by (simp add: p2_succ)
    qed
  qed
qed

lemma binade_bounds:
  assumes "0 < x"
  shows "- 1022 \<le> binade x 0" and "x < 2 powi (binade x 0 + 1)"
    and "binade x 0 = - 1022 \<or> 2 powi binade x 0 \<le> x"
  using binade_inv [OF assms, of 0] by simp_all

lemma binade_unique:
  assumes "0 < x" and "- 1022 \<le> k" and "x < 2 powi (k + 1)"
    and "k = - 1022 \<or> 2 powi k \<le> x"
  shows "binade x 0 = k"
proof (rule ccontr)
  assume ne: "binade x 0 \<noteq> k"
  let ?e = "binade x 0"
  note b = binade_bounds [OF assms(1)]
  show False
  proof (cases "?e < k")
    case True
    with b(1) assms(4) have "2 powi k \<le> x" by auto
    moreover from True have "2 powi (?e + 1) \<le> (2::real) powi k"
      by (intro p2_mono) simp
    ultimately show False using b(2) by linarith
  next
    case False
    with ne have lt: "k < ?e" by simp
    with assms(2) b(3) have "2 powi ?e \<le> x" by auto
    moreover from lt have "2 powi (k + 1) \<le> (2::real) powi ?e"
      by (intro p2_mono) simp
    ultimately show False using assms(3) by linarith
  qed
qed

lemma round_half_even_cases:
  "round_half_even x = \<lfloor>x\<rfloor> \<and> x - of_int \<lfloor>x\<rfloor> \<le> 1 / 2
   \<or> round_half_even x = \<lfloor>x\<rfloor> + 1 \<and> 1 / 2 \<le> x - of_int \<lfloor>x\<rfloor>"
  by (simp add: round_half_even_def Let_def)

lemma round_half_even_close: "\<bar>of_int (round_half_even x) - x\<bar> \<le> 1 / 2"
proof -
  have "of_int \<lfloor>x\<rfloor> \<le> x" and "x < of_int \<lfloor>x\<rfloor> + 1"
    by linarith+
  with round_half_even_cases [of x] show ?thesis
    by auto
qed

lemma round_half_even_of_int: "round_half_even (of_int k) = k"
  by (simp add: round_half_even_def)

lemma round_half_even_mono:
  assumes "x \<le> y"
  shows "round_half_even x \<le> round_half_even y"
proof (cases "\<lfloor>x\<rfloor> = \<lfloor>y\<rfloor>")
  case True
  with assms show ?thesis
    by (simp add: round_half_even_def Let_def)
next
  case False
  with assms have "\<lfloor>x\<rfloor> + 1 \<le> \<lfloor>y\<rfloor>"
    using floor_mono [of x y] by linarith
  moreover have "round_half_even x \<le> \<lfloor>x\<rfloor> + 1"
    using round_half_even_cases [of x] by linarith
  moreover have "\<lfloor>y\<rfloor> \<le> round_half_even y"
    using round_half_even_cases [of y] by linarith
  ultimately show ?thesis
    by linarith
qed

lemma round_half_even_near:
  assumes "\<bar>x - of_int k\<bar> < 1 / 2"
  shows "round_half_even x = k"
proof -
  have "\<bar>of_int (round_half_even x) - x\<bar> \<le> 1 / 2"
    by (rule round_half_even_close)
  with assms have "\<bar>real_of_int (round_half_even x) - of_int k\<bar> < 1"
    by linarith
  then have "\<bar>round_half_even x - k\<bar> < 1"
    by (metis of_int_diff of_int_abs of_int_less_1_iff)
  then show ?thesis by linarith
qed

lemma round_half_even_minus: "round_half_even (- x) = - round_half_even x"
proof (cases "x = of_int \<lfloor>x\<rfloor>")
  case True
  then obtain k where "x = of_int k" ..
  then have "round_half_even (- x) = round_half_even (of_int (- k))" by simp
  also have "\<dots> = - k" by (rule round_half_even_of_int)
  finally show ?thesis using \<open>x = of_int k\<close> by (simp add: round_half_even_of_int)
next
  case False
  then have lt: "of_int \<lfloor>x\<rfloor> < x"
    using of_int_floor_le [of x] by linarith
  have fl: "\<lfloor>- x\<rfloor> = - \<lfloor>x\<rfloor> - 1"
    using lt by linarith
  show ?thesis
  proof (cases "x - of_int \<lfloor>x\<rfloor> = 1 / 2")
    case True
    have "even \<lfloor>x\<rfloor> \<longleftrightarrow> odd (- \<lfloor>x\<rfloor> - 1)"
      by simp
    with True show ?thesis
      by (simp add: round_half_even_def Let_def fl)
  next
    case False
    then show ?thesis
      by (auto simp: round_half_even_def Let_def fl)
  qed
qed

lemma fl_zero: "fl 0 = 0"
  by (simp add: fl_def)

lemma fl_minus: "fl (- x) = - fl x"
  by (simp add: fl_def Let_def round_half_even_minus)

lemma fl_pos_form:
  assumes "0 < x"
  shows "fl x = of_int (round_half_even (x / 2 powi (binade x 0 - 52))) * 2 powi (binade x 0 - 52)"
  using assms by (simp add: fl_def Let_def)

text \<open>A positive number and its rounding lie between the same neighbouring powers of two.\<close>

lemma fl_upper:
  assumes "0 < x"
  shows "fl x \<le> 2 powi (binade x 0 + 1)"
proof -
  let ?q = "binade x 0 - 52"
  have "x / 2 powi ?q \<le> 2 powi (binade x 0 + 1) / 2 powi ?q"
    using binade_bounds(2) [OF assms] by (simp add: divide_right_mono)
  also have "\<dots> = of_int (2 ^ 53)"
    by (simp add: p2_div)
  finally have "round_half_even (x / 2 powi ?q) \<le> round_half_even (of_int (2 ^ 53))"
    by (rule round_half_even_mono)
  then have "round_half_even (x / 2 powi ?q) \<le> 2 ^ 53"
    by (simp only: round_half_even_of_int)
  then have "real_of_int (round_half_even (x / 2 powi ?q)) \<le> 2 ^ 53"
    by (metis of_int_le_iff of_int_numeral of_int_power)
  then have "of_int (round_half_even (x / 2 powi ?q)) * 2 powi ?q \<le> 2 ^ 53 * (2::real) powi ?q"
    by (intro mult_right_mono) simp_all
  also have "\<dots> = 2 powi (binade x 0 + 1)"
    by (rule p2_53)
  finally show ?thesis
    by (simp add: fl_pos_form [OF assms])
qed

lemma fl_lower:
  assumes "0 < x" and "2 powi binade x 0 \<le> x"
  shows "2 powi binade x 0 \<le> fl x"
proof -
  let ?q = "binade x 0 - 52"
  have "2 powi binade x 0 / 2 powi ?q \<le> x / 2 powi ?q"
    using assms(2) by (simp add: divide_right_mono)
  moreover have "(2::real) powi binade x 0 / 2 powi ?q = of_int (2 ^ 52)"
    by (simp add: p2_div)
  ultimately have "round_half_even (of_int (2 ^ 52)) \<le> round_half_even (x / 2 powi ?q)"
    by (metis round_half_even_mono)
  then have "2 ^ 52 \<le> round_half_even (x / 2 powi ?q)"
    by (simp only: round_half_even_of_int)
  then have "2 ^ 52 \<le> real_of_int (round_half_even (x / 2 powi ?q))"
    by (metis of_int_le_iff of_int_numeral of_int_power)
  then have "2 ^ 52 * (2::real) powi ?q \<le> of_int (round_half_even (x / 2 powi ?q)) * 2 powi ?q"
    by (intro mult_right_mono) simp_all
  moreover have "2 ^ 52 * (2::real) powi ?q = 2 powi binade x 0"
    by (rule p2_52)
  ultimately show ?thesis
    unfolding fl_pos_form [OF assms(1)] by linarith
qed

lemma fl_nonneg:
  assumes "0 \<le> x"
  shows "0 \<le> fl x"
proof (cases "x = 0")
  case True
  then show ?thesis by (simp add: fl_zero)
next
  case False
  with assms have x: "0 < x" by simp
  have "round_half_even 0 \<le> round_half_even (x / 2 powi (binade x 0 - 52))"
    using x by (intro round_half_even_mono) simp
  then have "0 \<le> round_half_even (x / 2 powi (binade x 0 - 52))"
    using round_half_even_of_int [of 0] by simp
  then show ?thesis
    by (simp add: fl_pos_form [OF x])
qed

lemma fl_mono_pos:
  assumes "0 < x" and "x \<le> y"
  shows "fl x \<le> fl y"
proof -
  from assms have y: "0 < y" by simp
  let ?ex = "binade x 0" and ?ey = "binade y 0"
  show ?thesis
  proof (cases "?ex = ?ey")
    case True
    have "x / 2 powi (?ey - 52) \<le> y / 2 powi (?ey - 52)"
      using assms(2) by (simp add: divide_right_mono)
    then have "round_half_even (x / 2 powi (?ey - 52)) \<le> round_half_even (y / 2 powi (?ey - 52))"
      by (rule round_half_even_mono)
    then show ?thesis
      by (simp add: fl_pos_form [OF assms(1)] fl_pos_form [OF y] True mult_right_mono)
  next
    case False
    have "?ex < ?ey"
    proof (rule ccontr)
      assume "\<not> ?ex < ?ey"
      with False have lt: "?ey < ?ex" by simp
      with binade_bounds(1) [OF y] binade_bounds(3) [OF assms(1)] have "2 powi ?ex \<le> x"
        by auto
      moreover from lt have "2 powi (?ey + 1) \<le> (2::real) powi ?ex"
        by (intro p2_mono) simp
      ultimately show False
        using binade_bounds(2) [OF y] assms(2) by linarith
    qed
    with binade_bounds(1) [OF assms(1)] binade_bounds(3) [OF y] have "2 powi ?ey \<le> y"
      by auto
    from fl_lower [OF y this] have "2 powi ?ey \<le> fl y" .
    moreover from \<open>?ex < ?ey\<close> have "2 powi (?ex + 1) \<le> (2::real) powi ?ey"
      by (intro p2_mono) simp
    ultimately show ?thesis
      using fl_upper [OF assms(1)] by linarith
  qed
qed

lemma fl_mono:
  assumes "x \<le> y"
  shows "fl x \<le> fl y"
proof -
  consider "0 < x" | "x \<le> 0" "0 \<le> y" | "y < 0" by linarith
  then show ?thesis
  proof cases
    case 1
    then show ?thesis using assms by (rule fl_mono_pos)
  next
    case 2
    have "fl x = - fl (- x)" by (simp add: fl_minus)
    moreover have "0 \<le> fl (- x)" using 2(1) by (intro fl_nonneg) simp
    moreover have "0 \<le> fl y" using 2(2) by (rule fl_nonneg)
    ultimately show ?thesis by linarith
  next
    case 3
    then have "fl (- y) \<le> fl (- x)"
      using assms by (intro fl_mono_pos) simp_all
    then show ?thesis by (simp add: fl_minus)
  qed
qed


lemma mantissa_range:
  assumes "0 < x"
  shows "0 \<le> round_half_even (x / 2 powi (binade x 0 - 52))"
    and "round_half_even (x / 2 powi (binade x 0 - 52)) \<le> 2 ^ 53"
proof -
  let ?q = "binade x 0 - 52"
  have "round_half_even 0 \<le> round_half_even (x / 2 powi ?q)"
    using assms by (intro round_half_even_mono) simp
  then show "0 \<le> round_half_even (x / 2 powi ?q)"
    using round_half_even_of_int [of 0] by simp
  have "x / 2 powi ?q \<le> 2 powi (binade x 0 + 1) / 2 powi ?q"
    using binade_bounds(2) [OF assms] by (simp add: divide_right_mono)
  also have "\<dots> = of_int (2 ^ 53)"
    by (simp add: p2_div)
  finally have "round_half_even (x / 2 powi ?q) \<le> round_half_even (of_int (2 ^ 53))"
    by (rule round_half_even_mono)
  then show "round_half_even (x / 2 powi ?q) \<le> 2 ^ 53"
    by (simp only: round_half_even_of_int)
qed

lemma fl_exact_pos:
  assumes "0 < m" and "m < 2 ^ 53" and "- 1074 \<le> j"
  shows "fl (of_int m * 2 powi j) = of_int m * 2 powi j"
proof -
  let ?x = "real_of_int m * 2 powi j"
  have x: "0 < ?x" using assms(1) by simp
  let ?e = "binade ?x 0"
  note b = binade_bounds [OF x]
  have q: "?e - 52 \<le> j"
  proof (cases "?e = - 1022")
    case True
    with assms(3) show ?thesis by simp
  next
    case False
    with b(3) have le: "2 powi ?e \<le> ?x" by simp
    have "real_of_int m < 2 ^ 53"
      using assms(2) by (metis of_int_less_iff of_int_numeral of_int_power)
    then have "?x < 2 ^ 53 * 2 powi j"
      by (simp add: mult_strict_right_mono)
    also have "\<dots> = 2 powi (j + 53)"
      using p2_add [of j 53] by simp
    finally have "2 powi ?e < (2::real) powi (j + 53)"
      using le by linarith
    then have "?e < j + 53"
      using p2_mono [of "j + 53" ?e] by (cases "?e < j + 53") auto
    then show ?thesis by simp
  qed
  define d where "d = nat (j - (?e - 52))"
  have "?x / 2 powi (?e - 52) = of_int m * (2 powi j / 2 powi (?e - 52))"
    by simp
  also have "2 powi j / (2::real) powi (?e - 52) = 2 powi (j - (?e - 52))"
    by (rule p2_div)
  also have "j - (?e - 52) = int d"
    using q by (simp add: d_def)
  finally have quot: "?x / 2 powi (?e - 52) = of_int (m * 2 ^ d)"
    by simp
  have "round_half_even (?x / 2 powi (?e - 52)) = m * 2 ^ d"
    unfolding quot by (rule round_half_even_of_int)
  then have "fl ?x = of_int (m * 2 ^ d) * 2 powi (?e - 52)"
    by (simp add: fl_pos_form [OF x])
  also have "\<dots> = ?x / 2 powi (?e - 52) * 2 powi (?e - 52)"
    by (simp only: quot)
  also have "\<dots> = ?x"
    by simp
  finally show ?thesis .
qed

lemma fl_exact:
  assumes "\<bar>m\<bar> < 2 ^ 53" and "- 1074 \<le> j"
  shows "fl (of_int m * 2 powi j) = of_int m * 2 powi j"
proof -
  consider "m = 0" | "0 < m" | "m < 0" by linarith
  then show ?thesis
  proof cases
    case 1
    then show ?thesis by (simp add: fl_zero)
  next
    case 2
    with assms show ?thesis by (intro fl_exact_pos) simp_all
  next
    case 3
    with assms have "fl (of_int (- m) * 2 powi j) = of_int (- m) * 2 powi j"
      by (intro fl_exact_pos) simp_all
    then have "fl (- (of_int m * 2 powi j)) = - (of_int m * 2 powi j)"
      by simp
    then show ?thesis
      by (simp only: fl_minus neg_equal_iff_equal)
  qed
qed

lemma fl_of_int: "\<bar>m\<bar> < 2 ^ 53 \<Longrightarrow> fl (of_int m) = of_int m"
  using fl_exact [of m 0] by simp

lemma fl_idem_pos:
  assumes "0 < x"
  shows "fl (fl x) = fl x"
proof -
  let ?q = "binade x 0 - 52"
  let ?M = "round_half_even (x / 2 powi ?q)"
  note r = mantissa_range [OF assms]
  have q: "- 1074 \<le> ?q"
    using binade_bounds(1) [OF assms] by simp
  have form: "fl x = of_int ?M * 2 powi ?q"
    by (rule fl_pos_form [OF assms])
  show ?thesis
  proof (cases "?M = 2 ^ 53")
    case True
    then have "fl x = 2 ^ 53 * 2 powi ?q"
      using form by simp
    also have "\<dots> = of_int 1 * 2 powi (binade x 0 + 1)"
      using p2_53 [of "binade x 0"] by simp
    finally have eq: "fl x = of_int 1 * 2 powi (binade x 0 + 1)" .
    have "fl (of_int 1 * 2 powi (binade x 0 + 1)) = of_int 1 * 2 powi (binade x 0 + 1)"
      using q by (intro fl_exact) simp_all
    then show ?thesis
      unfolding eq .
  next
    case False
    with r have "\<bar>?M\<bar> < 2 ^ 53" by simp
    from fl_exact [OF this q] show ?thesis
      unfolding form .
  qed
qed

lemma fl_idem: "fl (fl x) = fl x"
proof -
  consider "x = 0" | "0 < x" | "x < 0" by linarith
  then show ?thesis
  proof cases
    case 1
    then show ?thesis by (simp add: fl_zero)
  next
    case 2
    then show ?thesis by (rule fl_idem_pos)
  next
    case 3
    then have "fl (fl (- x)) = fl (- x)"
      by (intro fl_idem_pos) simp
    then show ?thesis
      by (simp only: fl_minus neg_equal_iff_equal)
  qed
qed

lemma fl_close_pos:
  assumes "0 < x" and "2 powi (- 1022) \<le> x"
  shows "\<bar>fl x - x\<bar> \<le> x / 2 ^ 53"
proof -
  let ?e = "binade x 0"
  let ?q = "?e - 52"
  let ?M = "round_half_even (x / 2 powi ?q)"
  have le: "2 powi ?e \<le> x"
    using binade_bounds(3) [OF assms(1)] assms(2) by auto
  have "\<bar>of_int ?M - x / 2 powi ?q\<bar> \<le> 1 / 2"
    by (rule round_half_even_close)
  then have "\<bar>of_int ?M - x / 2 powi ?q\<bar> * 2 powi ?q \<le> 1 / 2 * 2 powi ?q"
    by (intro mult_right_mono) simp_all
  moreover have "\<bar>of_int ?M - x / 2 powi ?q\<bar> * 2 powi ?q = \<bar>of_int ?M * 2 powi ?q - x\<bar>"
  proof -
    have "\<bar>of_int ?M - x / 2 powi ?q\<bar> * 2 powi ?q
            = \<bar>(of_int ?M - x / 2 powi ?q) * 2 powi ?q\<bar>"
      by (simp add: abs_mult)
    also have "(of_int ?M - x / 2 powi ?q) * 2 powi ?q = of_int ?M * 2 powi ?q - x"
      by (simp add: left_diff_distrib)
    finally show ?thesis .
  qed
  ultimately have "\<bar>fl x - x\<bar> \<le> 2 powi ?q / 2"
    by (simp add: fl_pos_form [OF assms(1)])
  also have "(2::real) powi ?q / 2 = 2 powi ?e / 2 ^ 53"
    using p2_52 [of ?e] by simp
  also have "\<dots> \<le> x / 2 ^ 53"
    using le by (simp add: divide_right_mono)
  finally show ?thesis .
qed

lemma fl_close:
  assumes "2 powi (- 1022) \<le> \<bar>x\<bar>"
  shows "\<bar>fl x - x\<bar> \<le> \<bar>x\<bar> / 2 ^ 53"
proof (cases "0 < x")
  case True
  with assms fl_close_pos [of x] show ?thesis by simp
next
  case False
  have "0 < (2::real) powi (- 1022)" by (rule p2_pos)
  with assms False have neg: "0 < - x" "2 powi (- 1022) \<le> - x"
    by (simp_all add: abs_if split: if_splits)
  from fl_close_pos [OF neg] have "\<bar>- fl x + x\<bar> \<le> - x / 2 ^ 53"
    by (simp add: fl_minus)
  moreover have "\<bar>- fl x + x\<bar> = \<bar>fl x - x\<bar>" by simp
  ultimately show ?thesis using neg(1) by simp
qed



section \<open>Basic facts about the arithmetic\<close>

lemma foldl_add_int: "foldl (+) a xs = a + sum_list (xs :: int list)"
  by (induction xs arbitrary: a) simp_all

lemma py_sum_int_eq: "py_sum_int xs = sum_list xs"
  by (simp add: py_sum_int_def foldl_add_int)

lemma level_of_zero: "level_of 0 = POOR"
  by (simp add: level_of_def GradeLevel_members_def)

lemma py_round2_zero: "py_round2 0 = 0"
  by (simp add: py_round2_def round_half_even_def fl_zero)

lemma fl_ten: "fl 10 = 10"
  using fl_of_int [of 10] by simp

lemma fl_one: "fl 1 = 1"
  using fl_of_int [of 1] by simp

lemma py_round2_mono: "x \<le> y \<Longrightarrow> py_round2 x \<le> py_round2 y"
  unfolding py_round2_def
  by (intro fl_mono divide_right_mono) (simp_all add: round_half_even_mono)

lemma py_round2_ten: "py_round2 10 = 10"
  using round_half_even_of_int [of 1000] by (simp add: py_round2_def fl_ten)

text \<open>A two-decimal double between 0 and 10 is left as it is by \<open>round(., 2)\<close>.\<close>

lemma py_round2_fixed:
  assumes "g = py_round2 x" and "0 \<le> g" and "g \<le> 10"
  shows "py_round2 g = g"
proof -
  define k where "k = round_half_even (x * 100)"
  have g: "g = fl (of_int k / 100)"
    by (simp add: assms(1) py_round2_def k_def)
  have lo: "0 \<le> k"
  proof (rule ccontr)
    assume "\<not> 0 \<le> k"
    then have "k \<le> - 1" by simp
    then have "real_of_int k \<le> - 1" by linarith
    then have "real_of_int k / 100 \<le> - (1 / 128)" by simp
    then have "fl (of_int k / 100) \<le> fl (- (1 / 128))" by (rule fl_mono)
    also have "fl (- (1 / 128)) = - (1 / 128)"
      using fl_exact [of "- 1" "- 7"] by simp
    finally show False using g assms(2) by simp
  qed
  have hi: "k \<le> 1000"
  proof (rule ccontr)
    assume "\<not> k \<le> 1000"
    then have "1001 \<le> k" by simp
    then have "1001 \<le> real_of_int k" by linarith
    then have "1281 / 128 \<le> real_of_int k / 100" by simp
    then have "fl (1281 / 128) \<le> fl (of_int k / 100)" by (rule fl_mono)
    moreover have "fl (1281 / 128) = 1281 / 128"
      using fl_exact [of 1281 "- 7"] by simp
    ultimately show False using g assms(3) by simp
  qed
  have near: "\<bar>g * 100 - of_int k\<bar> < 1 / 2"
  proof (cases "k = 0")
    case True
    then show ?thesis by (simp add: g fl_zero)
  next
    case False
    with lo have k1: "1 \<le> real_of_int k" by linarith
    have "(2::real) powi (- 1022) \<le> 2 powi (- 7)"
      by (rule p2_mono) simp
    also have "\<dots> \<le> real_of_int k / 100"
      using k1 by simp
    finally have "2 powi (- 1022) \<le> \<bar>real_of_int k / 100\<bar>"
      using k1 by simp
    from fl_close [OF this] have "\<bar>g - of_int k / 100\<bar> \<le> (of_int k / 100) / 2 ^ 53"
      using k1 by (simp add: g)
    also have "\<dots> \<le> (1000 / 100) / 2 ^ 53"
      using hi by (intro divide_right_mono) simp_all
    finally have "\<bar>g - of_int k / 100\<bar> < 1 / 200"
      by simp
    then show ?thesis
      by (simp add: abs_less_iff field_simps)
  qed
  have "round_half_even (g * 100) = k"
    by (rule round_half_even_near [OF near])
  then show ?thesis
    by (simp add: py_round2_def g)
qed

section \<open>Records without subjects\<close>

text \<open>
  Claim C4. A record with no subject entries has \<open>simple_gpa\<close> and \<open>weighted_gpa\<close> equal
  to 0.0, both returned without any exception (in particular no division by zero), and
  its grade level is \<open>POOR\<close>.
\<close>

theorem empty_record_gpa_zero:
  assumes "subjects r = []"
  shows "simple_gpa r = Inr 0 \<and> weighted_gpa r = Inr 0 \<and> grade_level r = Inr POOR"
  using assms
  by (simp add: simple_gpa_def weighted_gpa_def grade_level_def bind_err_def level_of_zero)

theorem empty_record_gpa_zero_witness:
  "subjects record_empty = [] \<and> simple_gpa record_empty = Inr 0
     \<and> weighted_gpa record_empty = Inr 0 \<and> grade_level record_empty = Inr POOR"
  using empty_record_gpa_zero [of record_empty]
  by (simp add: record_empty_def record_of_def)

text \<open>
  Claim C10. For a record with no subject entries \<open>predict_performance\<close> returns, without
  raising, the result with current average 0.0, improvement potential 0.0, predicted
  next average 0.0, the lowest confidence label, the recommendation to improve, and no
  focus areas.
\<close>

theorem predict_performance_empty:
  assumes "subjects r = []"
  shows "predict_performance r =
           Inr \<lparr>current_gpa = 0, predicted_next = 0, improvement_potential = 0,
                confidence = Thap, recommendation = Cai_thien, focus_areas = []\<rparr>"
  using assms
  by (simp add: predict_performance_def calculate_statistics_def weighted_gpa_def
        bind_err_def dict_get_def py_real_def py_div_def fsub_def fmul_def fadd_def
        fl_zero py_round2_zero)

theorem predict_performance_empty_witness:
  "subjects record_empty = [] \<and>
   predict_performance record_empty =
     Inr \<lparr>current_gpa = 0, predicted_next = 0, improvement_potential = 0,
          confidence = Thap, recommendation = Cai_thien, focus_areas = []\<rparr>"
  using predict_performance_empty [of record_empty]
  by (simp add: record_empty_def record_of_def)

text \<open>
  What the missing entries do one at a time. Given a minimum, the call returns, and the
  default consistency of 0 has added the remark on uneven scores to the remark on the
  average; without a minimum the comparison raises.
\<close>

lemma generate_insights_default_consistency:
  "generate_insights [''min'' \<mapsto> PFloat 5] (r\<lparr>subjects := []\<rparr>)
     = Inr [Gpa_needs_improvement, Consistency_uneven]"
  by (simp add: generate_insights_def weighted_gpa_def bind_err_def dict_get_def py_real_def
        py_eq_float_def)

lemma py_real_None: "py_real (dict_get Map.empty ''min'' PNone) = Inl TypeError"
  by (simp add: dict_get_def py_real_def)

text \<open>
  Claim C1 says that for a record with no subject entries the insight generator, applied
  to the statistics of the empty list, returns exactly the one remark of the lowest
  average tier. The code does not: the statistics are the empty dictionary, so
  \<^verbatim>\<open>stats.get('consistency_score', 0)\<close> is 0 and the remark on uneven scores is
  appended after the first one, and then \<^verbatim>\<open>stats.get('min') < 5.0\<close> compares
  \<^verbatim>\<open>None\<close> with a float, which raises \<^verbatim>\<open>TypeError\<close>. This holds for every
  record once its subject list is empty.
\<close>

theorem generate_insights_empty_raises:
  "calculate_statistics (subjects (r\<lparr>subjects := []\<rparr>)) = Inr Map.empty \<and>
   generate_insights Map.empty (r\<lparr>subjects := []\<rparr>) = Inl TypeError"
  by (simp add: calculate_statistics_def generate_insights_def weighted_gpa_def
        bind_err_def dict_get_def py_real_def py_eq_float_def)


section \<open>Averages of a record with subjects\<close>

lemma of_int_sum_list_map:
  "real_of_int (sum_list (map f xs)) = (\<Sum>x\<leftarrow>xs. real_of_int (f x))"
  by (induction xs) simp_all

lemma sum_weights_pos:
  assumes "xs \<noteq> []" and "valid_subjects xs"
  shows "0 < sum_list (map weight xs)"
  using assms
proof (induction xs)
  case Nil
  then show ?case by simp
next
  case (Cons s xs)
  then have w: "0 < weight s"
    by (auto simp: valid_subjects_def SubjectInfo_post_init_def split: if_splits)
  show ?case
  proof (cases "xs = []")
    case True
    with w show ?thesis by simp
  next
    case False
    with Cons have "0 < sum_list (map weight xs)"
      by (simp add: valid_subjects_def)
    with w show ?thesis by simp
  qed
qed

lemma float_of_int_pos:
  assumes "0 < i"
  shows "1 \<le> float_of_int i"
proof -
  from assms have "(1::real) \<le> of_int i" by linarith
  then have "fl 1 \<le> fl (of_int i)" by (rule fl_mono)
  then show ?thesis by (simp add: float_of_int_def fl_one)
qed

lemma py_sum_as_double_sum:
  "n \<le> length xs \<Longrightarrow> foldl fadd 0 (take n xs) = double_sum_upto xs n"
proof (induction n)
  case 0
  show ?case by simp
next
  case (Suc n)
  then have "take (Suc n) xs = take n xs @ [xs ! n]"
    by (simp add: take_Suc_conv_app_nth)
  with Suc show ?case
    by (simp add: fadd_def)
qed

lemma py_sum_eq: "py_sum xs = double_sum_upto xs (length xs)"
  using py_sum_as_double_sum [of "length xs" xs] by (simp add: py_sum_def)

lemma round_half_even_rounds:
  "rounded_to_2_decimals x (of_int (round_half_even (x * 100)) / 100)"
proof -
  have "\<bar>of_int (round_half_even (x * 100)) - x * 100\<bar> \<le> 1 / 2"
    by (rule round_half_even_close)
  then have "\<bar>of_int (round_half_even (x * 100)) / 100 - x\<bar> \<le> 1 / 200"
    by (simp add: abs_le_iff field_simps)
  then show ?thesis
    by (simp add: rounded_to_2_decimals_def)
qed

lemma simple_gpa_nonempty:
  assumes "subjects r \<noteq> []"
  shows "simple_gpa r = Inr (py_round2 (double_mean_score (subjects r)))"
proof -
  have "0 < int (length (subjects r))" using assms by simp
  from float_of_int_pos [OF this] have "float_of_int (int (length (subjects r))) \<noteq> 0"
    by simp
  with assms show ?thesis
    by (simp add: simple_gpa_def py_div_def bind_err_def py_sum_eq double_mean_score_def
          float_of_int_def)
qed

lemma weighted_gpa_nonempty:
  assumes "subjects r \<noteq> []" and "valid_subjects (subjects r)"
  shows "weighted_gpa r = Inr (py_round2 (double_weighted_mean (subjects r)))"
proof -
  from float_of_int_pos [OF sum_weights_pos [OF assms]]
  have "float_of_int (sum_list (map weight (subjects r))) \<noteq> 0"
    by simp
  with assms(1) show ?thesis
    by (simp add: weighted_gpa_def py_div_def bind_err_def py_sum_eq py_sum_int_eq Let_def
          double_weighted_mean_def weighted_score_def [abs_def] fmul_def float_of_int_def)
qed

text \<open>
  Claim C3, as amended. For a record with at least one subject entry, all of them with a
  score in [0, 10] and a weight in {1, 2, 3}, neither average raises. \<open>simple_gpa\<close> is
  the double nearest to a two-decimal number that lies within 0.005 of the mean as
  double precision computes it (the scores added from the left, the sum divided by the
  count); \<open>weighted_gpa\<close> is the same for the double precision quotient of the sum of
  score times weight by the sum of the weights.
\<close>

theorem gpa_is_rounded_double_mean:
  assumes "subjects r \<noteq> []" and "valid_subjects (subjects r)"
  shows "\<exists>k1 k2. simple_gpa r = Inr (fl (of_int k1 / 100))
       \<and> rounded_to_2_decimals (double_mean_score (subjects r)) (of_int k1 / 100)
       \<and> weighted_gpa r = Inr (fl (of_int k2 / 100))
       \<and> rounded_to_2_decimals (double_weighted_mean (subjects r)) (of_int k2 / 100)"
proof -
  let ?k1 = "round_half_even (double_mean_score (subjects r) * 100)"
  let ?k2 = "round_half_even (double_weighted_mean (subjects r) * 100)"
  have "simple_gpa r = Inr (fl (of_int ?k1 / 100))"
    by (simp add: simple_gpa_nonempty [OF assms(1)] py_round2_def)
  moreover have "weighted_gpa r = Inr (fl (of_int ?k2 / 100))"
    by (simp add: weighted_gpa_nonempty [OF assms] py_round2_def)
  ultimately show ?thesis
    using round_half_even_rounds by blast
qed

lemma record_half_valid:
  "subjects record_half \<noteq> []" "valid_subjects (subjects record_half)"
  by (simp_all add: valid_subjects_def record_half_def record_of_def subject_of_def
        SubjectInfo_post_init_def)

theorem gpa_is_rounded_double_mean_witness:
  "subjects record_half \<noteq> [] \<and> valid_subjects (subjects record_half)
   \<and> double_mean_score (subjects record_half) = 63 / 8
   \<and> simple_gpa record_half = Inr (fl (788 / 100))
   \<and> rounded_to_2_decimals (63 / 8) (788 / 100)
   \<and> double_weighted_mean (subjects record_half) = 129 / 16
   \<and> weighted_gpa record_half = Inr (fl (806 / 100))
   \<and> rounded_to_2_decimals (129 / 16) (806 / 100)"
proof -
  have m: "double_mean_score (subjects record_half) = 63 / 8"
    by code_simp
  have w: "double_weighted_mean (subjects record_half) = 129 / 16"
    by code_simp
  have s: "simple_gpa record_half = Inr (fl (788 / 100))"
    by code_simp
  have g: "weighted_gpa record_half = Inr (fl (806 / 100))"
    by code_simp
  have r: "rounded_to_2_decimals (63 / 8) (788 / 100)"
    "rounded_to_2_decimals (129 / 16) (806 / 100)"
    by (simp_all add: rounded_to_2_decimals_def)
  show ?thesis
    using gpa_is_rounded_double_mean [OF record_half_valid] record_half_valid m w s g r
    by blast
qed

text \<open>
  Claim C3 as stated speaks of the arithmetic mean. It fails where the float sum differs
  from the exact sum: for the scores 0.25 and \<open>2\<^sup>-\<^sup>6\<^sup>0\<close> the mean lies
  above 0.125 and rounds to 0.13, the float sum is 0.25, its half is the tie 0.125, and
  the code returns the double of 0.12.
\<close>

theorem simple_gpa_misses_rounded_mean:
  "valid_subjects (subjects record_tiny)
   \<and> spec_mean_score (subjects record_tiny) = 1 / 8 + 1 / 2 ^ 61
   \<and> rounded_to_2_decimals (spec_mean_score (subjects record_tiny)) (13 / 100)
   \<and> \<not> rounded_to_2_decimals (spec_mean_score (subjects record_tiny)) (12 / 100)
   \<and> simple_gpa record_tiny = Inr (fl (12 / 100))
   \<and> fl (12 / 100) < 12 / 100
   \<and> simple_gpa record_tiny \<noteq> Inr (fl (13 / 100))"
proof -
  have v: "valid_subjects (subjects record_tiny)"
    by (simp add: valid_subjects_def record_tiny_def record_of_def subject_of_def
          SubjectInfo_post_init_def)
  have m: "spec_mean_score (subjects record_tiny) = 1 / 8 + 1 / 2 ^ 61"
    by (simp add: spec_mean_score_def record_tiny_def record_of_def subject_of_def)
  have r: "rounded_to_2_decimals (spec_mean_score (subjects record_tiny)) (13 / 100)"
    "\<not> rounded_to_2_decimals (spec_mean_score (subjects record_tiny)) (12 / 100)"
    unfolding m by (simp_all add: rounded_to_2_decimals_def)
  have s: "simple_gpa record_tiny = Inr (fl (12 / 100))"
    by code_simp
  have f: "fl (12 / 100) < 12 / 100"
    by code_simp
  have "fl (12 / 100) \<noteq> fl (13 / 100)"
    by code_simp
  then have n: "simple_gpa record_tiny \<noteq> Inr (fl (13 / 100))"
    by (simp add: s)
  show ?thesis
    using v m r s f n by blast
qed

text \<open>Quotients that fall on a decimal tie in exact arithmetic and beside it in doubles.\<close>

lemma weighted_gpa_below_tie:
  "weighted_gpa (record_of ''666666666666''
       [subject_of ''Toan'' 8 3, subject_of ''Van'' (29 / 4) 3, subject_of ''Anh'' 9 2,
        subject_of ''Ly'' (13 / 2) 2]) = Inr (fl (767 / 100))"
  by code_simp

lemma simple_gpa_above_tie:
  "simple_gpa (record_of ''777777777777''
       [subject_of ''Toan'' 8 1, subject_of ''Van'' 8 1, subject_of ''Anh'' 8 1,
        subject_of ''Ly'' 8 1, subject_of ''Hoa'' (65 / 8) 1]) = Inr (fl (803 / 100))"
  by code_simp


section \<open>The statistics of a non-empty list\<close>

lemma statistics_mean_nonempty:
  "xs \<noteq> [] \<Longrightarrow> statistics_mean xs = Inr (fl (sum_list xs / of_nat (length xs)))"
  by (cases xs) (simp_all add: statistics_mean_def)

lemma statistics_median_nonempty:
  assumes "xs \<noteq> []"
  shows "\<exists>m. statistics_median xs = Inr m"
proof (cases "length (sort xs) mod 2 = 1")
  case True
  from assms have ne: "sort xs \<noteq> []" by (metis length_sort length_0_conv)
  with True have "statistics_median xs = Inr (sort xs ! (length (sort xs) div 2))"
    by (simp add: statistics_median_def Let_def)
  then show ?thesis ..
next
  case False
  from assms have ne: "sort xs \<noteq> []" by (metis length_sort length_0_conv)
  with False have "statistics_median xs =
      Inr (fl (fadd (sort xs ! (length (sort xs) div 2 - 1)) (sort xs ! (length (sort xs) div 2)) / 2))"
    by (simp add: statistics_median_def Let_def)
  then show ?thesis ..
qed

text \<open>
  The sum of squared deviations as the module computes it is the sum of the squared
  deviations from the mean.
\<close>

lemma sum_squared_deviations:
  "(\<Sum>x\<leftarrow>xs. (x - m)\<^sup>2) =
     (\<Sum>x\<leftarrow>xs. x * x) - 2 * m * sum_list xs + of_nat (length xs) * (m::real)\<^sup>2"
  by (induction xs) (simp_all add: algebra_simps power2_eq_square)

lemma exact_variance_eq:
  assumes "xs \<noteq> []"
  shows "exact_variance xs = sample_variance xs"
proof -
  define n :: real where "n = of_nat (length xs)"
  have n: "n \<noteq> 0" using assms by (simp add: n_def)
  have "(\<Sum>x\<leftarrow>xs. (x - sum_list xs / n)\<^sup>2)
          = (n * (\<Sum>x\<leftarrow>xs. x * x) - sum_list xs * sum_list xs) / n"
    unfolding sum_squared_deviations n_def [symmetric]
    using n by (simp add: field_simps power2_eq_square)
  then show ?thesis
    by (simp add: exact_variance_def sample_variance_def Let_def n_def)
qed

lemma statistics_variance_many:
  assumes "1 < length xs"
  shows "statistics_variance xs = Inr (fl (sample_variance xs))"
proof -
  from assms have "xs \<noteq> []" by auto
  from exact_variance_eq [OF this] assms show ?thesis
    by (simp add: statistics_variance_def)
qed

lemma statistics_stdev_many:
  assumes "1 < length xs"
  shows "statistics_stdev xs = Inr (fl (sample_std_dev xs))"
proof -
  from assms have "xs \<noteq> []" by auto
  from exact_variance_eq [OF this] assms show ?thesis
    by (simp add: statistics_stdev_def sample_std_dev_def)
qed

lemma py_min_key_nonempty: "xs \<noteq> [] \<Longrightarrow> py_min_key f xs = Inr (min_from f (hd xs) (tl xs))"
  by (cases xs) (simp_all add: py_min_key_def)

lemma py_max_key_nonempty: "xs \<noteq> [] \<Longrightarrow> py_max_key f xs = Inr (max_from f (hd xs) (tl xs))"
  by (cases xs) (simp_all add: py_max_key_def)

lemma calculate_statistics_nonempty:
  assumes "subjs \<noteq> []"
  shows "\<exists>st. calculate_statistics subjs = Inr st
    \<and> st ''mean'' = Some (PFloat (fl (spec_mean_score subjs)))
    \<and> st ''variance'' =
          Some (if 1 < length subjs then PFloat (fl (sample_variance (map score subjs))) else PInt 0)
    \<and> st ''std_dev'' =
          Some (if 1 < length subjs then PFloat (fl (sample_std_dev (map score subjs))) else PInt 0)
    \<and> st ''min'' = Some (PFloat (min_from (\<lambda>x. x) (hd (map score subjs)) (tl (map score subjs))))
    \<and> st ''max'' = Some (PFloat (max_from (\<lambda>x. x) (hd (map score subjs)) (tl (map score subjs))))
    \<and> st ''min_subject'' = Some (PStr (name (min_from score (hd subjs) (tl subjs))))
    \<and> st ''max_subject'' = Some (PStr (name (max_from score (hd subjs) (tl subjs))))
    \<and> st ''consistency_score'' =
          Some (if 1 < length subjs \<and> 0 < fl (spec_mean_score subjs)
                then PFloat (fsub 100 (fmul (fl (fl (sample_std_dev (map score subjs))
                                                   / fl (spec_mean_score subjs))) 100))
                else PInt 100)"
proof -
  let ?scores = "map score subjs"
  have ne: "?scores \<noteq> []" using assms by simp
  obtain med where med: "statistics_median ?scores = Inr med"
    using statistics_median_nonempty [OF ne] by blast
  have n0: "real (length subjs) \<noteq> 0" using assms by simp
  have mean: "statistics_mean ?scores = Inr (fl (spec_mean_score subjs))"
    by (simp add: statistics_mean_nonempty [OF ne] spec_mean_score_def)
  show ?thesis
  proof (cases "1 < length subjs")
    case True
    then have l: "1 < length ?scores" by simp
    show ?thesis
      using assms True n0
      by (simp add: calculate_statistics_def Let_def mean med
            statistics_variance_many [OF l]
            statistics_stdev_many [OF l] py_min_key_nonempty py_max_key_nonempty
            py_div_def bind_err_def)
  next
    case False
    show ?thesis
      using assms False n0
      by (simp add: calculate_statistics_def Let_def mean med
            py_min_key_nonempty py_max_key_nonempty py_div_def bind_err_def)
  qed
qed

lemma scores_nonneg:
  "valid_subjects subjs \<Longrightarrow> x \<in> set (map score subjs) \<Longrightarrow> 0 \<le> x"
  by (auto simp: valid_subjects_def list_all_iff SubjectInfo_post_init_def split: if_splits)

lemma mean_zero_if:
  assumes "list_all (\<lambda>s. score s = 0) subjs"
  shows "fl (spec_mean_score subjs) = 0"
proof -
  have "sum_list (map score subjs) = 0"
    using assms by (induction subjs) simp_all
  then show ?thesis
    by (simp add: spec_mean_score_def fl_zero)
qed

lemma mean_nonneg:
  assumes "valid_subjects subjs"
  shows "0 \<le> fl (spec_mean_score subjs)"
proof -
  have "0 \<le> sum_list (map score subjs)"
    by (rule sum_list_nonneg) (rule scores_nonneg [OF assms])
  then show ?thesis
    by (intro fl_nonneg) (simp add: spec_mean_score_def)
qed

text \<open>
  Claim C5. On a non-empty list of valid subject entries the statistics engine returns
  a result (no exception, so no division by zero). Its mean is the exact mean rounded
  to a double, which is 0 when all scores are 0. For one entry the variance and the
  standard deviation are 0 and the consistency score is 100; for a mean of 0 the
  consistency score is 100; otherwise the mean is positive and the consistency score is
  100 minus the standard deviation over the mean times 100, evaluated in doubles.
\<close>

theorem consistency_score_cases:
  assumes "subjs \<noteq> []" and "valid_subjects subjs"
  shows "\<exists>st mean. calculate_statistics subjs = Inr st
    \<and> st ''mean'' = Some (PFloat mean) \<and> mean = fl (spec_mean_score subjs)
    \<and> (list_all (\<lambda>s. score s = 0) subjs \<longrightarrow> mean = 0)
    \<and> (if length subjs = 1
        then st ''variance'' = Some (PInt 0) \<and> st ''std_dev'' = Some (PInt 0)
           \<and> st ''consistency_score'' = Some (PInt 100)
        else if mean = 0
        then st ''consistency_score'' = Some (PInt 100)
        else 0 < mean
           \<and> st ''std_dev'' = Some (PFloat (fl (sample_std_dev (map score subjs))))
           \<and> st ''consistency_score'' =
               Some (PFloat (fsub 100
                       (fmul (fl (fl (sample_std_dev (map score subjs)) / mean)) 100))))"
proof -
  obtain st where st: "calculate_statistics subjs = Inr st"
    and mean: "st ''mean'' = Some (PFloat (fl (spec_mean_score subjs)))"
    and var: "st ''variance'' =
          Some (if 1 < length subjs then PFloat (fl (sample_variance (map score subjs))) else PInt 0)"
    and sd: "st ''std_dev'' =
          Some (if 1 < length subjs then PFloat (fl (sample_std_dev (map score subjs))) else PInt 0)"
    and cs: "st ''consistency_score'' =
          Some (if 1 < length subjs \<and> 0 < fl (spec_mean_score subjs)
                then PFloat (fsub 100 (fmul (fl (fl (sample_std_dev (map score subjs))
                                                   / fl (spec_mean_score subjs))) 100))
                else PInt 100)"
    using calculate_statistics_nonempty [OF assms(1)] by blast
  have len: "length subjs = 1 \<or> 1 < length subjs"
    using assms(1) by (cases subjs) auto
  have "0 \<le> fl (spec_mean_score subjs)"
    by (rule mean_nonneg [OF assms(2)])
  with len show ?thesis
    using st mean var sd cs mean_zero_if [of subjs] by auto
qed

text \<open>
  Half of the smallest positive double rounds to 0: the mean of the scores 0 and
  \<open>2\<^sup>-\<^sup>1\<^sup>0\<^sup>7\<^sup>4\<close> is 0 although one score is not.
\<close>

lemma fl_underflow: "fl (1 / 2 ^ 1075) = 0"
proof -
  define x :: real where "x = 1 / 2 ^ 1075"
  have pos: "0 < x" by (simp add: x_def)
  have b: "binade x 0 = - 1022"
    by (rule binade_unique) (simp_all add: x_def)
  have q: "x / 2 powi (- 1074) = 1 / 2"
    by (simp add: x_def)
  have "fl x = of_int (round_half_even (x / 2 powi (- 1074))) * 2 powi (- 1074)"
    using fl_pos_form [OF pos] by (simp only: b) simp
  also have "round_half_even (x / 2 powi (- 1074)) = 0"
    unfolding q by (simp add: round_half_even_def)
  finally show ?thesis by (simp add: x_def)
qed

theorem consistency_score_cases_witness:
  "(\<exists>st. calculate_statistics subjects_art = Inr st
      \<and> st ''variance'' = Some (PInt 0) \<and> st ''std_dev'' = Some (PInt 0)
      \<and> st ''consistency_score'' = Some (PInt 100))
   \<and> (\<exists>st. calculate_statistics subjects_zero = Inr st
      \<and> st ''mean'' = Some (PFloat 0)
      \<and> st ''consistency_score'' = Some (PInt 100))
   \<and> \<not> list_all (\<lambda>s. score s = 0) subjects_underflow
   \<and> (\<exists>st. calculate_statistics subjects_underflow = Inr st
      \<and> st ''mean'' = Some (PFloat 0)
      \<and> st ''consistency_score'' = Some (PInt 100))
   \<and> (\<exists>st. calculate_statistics subjects_spread = Inr st
      \<and> st ''mean'' = Some (PFloat 4) \<and> st ''std_dev'' = Some (PFloat 2)
      \<and> st ''consistency_score'' = Some (PFloat 50))"
proof -
  have a: "subjects_art \<noteq> []" "valid_subjects subjects_art" "length subjects_art = 1"
    by (simp_all add: subjects_art_def valid_subjects_def subject_of_def SubjectInfo_post_init_def)
  have z: "subjects_zero \<noteq> []" "valid_subjects subjects_zero" "length subjects_zero = 2"
    "fl (spec_mean_score subjects_zero) = 0"
    by (simp_all add: subjects_zero_def valid_subjects_def subject_of_def
          SubjectInfo_post_init_def spec_mean_score_def fl_zero)
  have u: "subjects_underflow \<noteq> []" "valid_subjects subjects_underflow"
    "length subjects_underflow = 2" "\<not> list_all (\<lambda>s. score s = 0) subjects_underflow"
    by (simp_all add: subjects_underflow_def valid_subjects_def subject_of_def
          SubjectInfo_post_init_def)
  have "spec_mean_score subjects_underflow = 1 / 2 ^ 1075"
    by (simp add: spec_mean_score_def subjects_underflow_def subject_of_def)
  then have um: "fl (spec_mean_score subjects_underflow) = 0"
    by (simp only: fl_underflow)
  have s: "subjects_spread \<noteq> []" "valid_subjects subjects_spread"
    "length subjects_spread = 3"
    by (simp_all add: subjects_spread_def valid_subjects_def subject_of_def
          SubjectInfo_post_init_def)
  have "spec_mean_score subjects_spread = of_int 4"
    by (simp add: spec_mean_score_def subjects_spread_def subject_of_def)
  then have sm: "fl (spec_mean_score subjects_spread) = 4"
    using fl_of_int [of 4] by simp
  have "sample_variance (map score subjects_spread) = 2\<^sup>2"
    by (simp add: sample_variance_def subjects_spread_def subject_of_def)
  then have "sample_std_dev (map score subjects_spread) = of_int 2"
    by (simp only: sample_std_dev_def real_sqrt_abs)
  then have sd: "fl (sample_std_dev (map score subjects_spread)) = 2"
    using fl_of_int [of 2] by simp
  have h: "fl (1 / 2) = 1 / 2"
    using fl_exact [of 1 "- 1"] by simp
  have f: "fmul (1 / 2) 100 = 50" "fsub 100 50 = 50"
    using fl_of_int [of 50] by (simp_all add: fmul_def fsub_def)
  show ?thesis
    using consistency_score_cases [OF a(1,2)] consistency_score_cases [OF z(1,2)]
      consistency_score_cases [OF u(1,2)] consistency_score_cases [OF s(1,2)]
    by (simp add: a(3) z(3,4) u(3,4) um s(3) sm sd h f) blast
qed


section \<open>The subjects with the extreme scores\<close>

lemma min_from_split:
  "\<exists>pre post. b # xs = pre @ min_from f b xs # post
     \<and> (\<forall>z\<in>set pre. f (min_from f b xs) < f z)
     \<and> (\<forall>z\<in>set post. f (min_from f b xs) \<le> f z)"
proof (induction xs arbitrary: b)
  case Nil
  have "[b] = [] @ min_from f b [] # []
     \<and> (\<forall>z\<in>set []. f (min_from f b []) < f z)
     \<and> (\<forall>z\<in>set []. f (min_from f b []) \<le> f z)"
    by simp
  then show ?case by blast
next
  case (Cons x xs)
  show ?case
  proof (cases "f x < f b")
    case True
    let ?m = "min_from f x xs"
    have step: "min_from f b (x # xs) = ?m" using True by simp
    from Cons [of x] obtain pre post where
      eq: "x # xs = pre @ ?m # post" and
      pre: "\<forall>z\<in>set pre. f ?m < f z" and post: "\<forall>z\<in>set post. f ?m \<le> f z"
      by blast
    have "x \<in> set (pre @ ?m # post)"
      using eq by (metis list.set_intros(1))
    with pre post have "f ?m \<le> f x" by auto
    with True have "f ?m < f b" by simp
    with pre have "\<forall>z\<in>set (b # pre). f ?m < f z" by simp
    moreover from eq have "b # x # xs = (b # pre) @ ?m # post" by simp
    ultimately show ?thesis
      unfolding step using post by blast
  next
    case False
    let ?m = "min_from f b xs"
    have step: "min_from f b (x # xs) = ?m" using False by simp
    from Cons [of b] obtain pre post where
      eq: "b # xs = pre @ ?m # post" and
      pre: "\<forall>z\<in>set pre. f ?m < f z" and post: "\<forall>z\<in>set post. f ?m \<le> f z"
      by blast
    show ?thesis
    proof (cases pre)
      case Nil
      with eq have "b # xs = ?m # post" by (simp only: append_Nil)
      moreover have "\<And>m. b # xs = m # post \<Longrightarrow> m = b \<and> xs = post" by simp
      ultimately have "?m = b \<and> xs = post" by blast
      then have m: "?m = b" and xs: "xs = post" by blast+
      from False m have "f ?m \<le> f x" by simp
      with post have "\<forall>z\<in>set (x # post). f ?m \<le> f z" by simp
      moreover have "b # x # xs = [] @ ?m # (x # post)" using m xs by simp
      moreover have "\<forall>z\<in>set []. f ?m < f z" by simp
      ultimately show ?thesis
        unfolding step by blast
    next
      case (Cons p pre')
      with eq have p: "p = b" and xs: "xs = pre' @ ?m # post" by auto
      from pre Cons p have "f ?m < f b" by simp
      with False have "f ?m < f x" by simp
      with pre Cons p have "\<forall>z\<in>set (b # x # pre'). f ?m < f z" by simp
      moreover have "b # x # xs = (b # x # pre') @ ?m # post" using xs by simp
      ultimately show ?thesis
        unfolding step using post by blast
    qed
  qed
qed

lemma find_after_prefix:
  "\<forall>z\<in>set pre. \<not> P z \<Longrightarrow> P m \<Longrightarrow> find P (pre @ m # post) = Some m"
  by (induction pre) simp_all

lemma first_attaining_min_eq:
  "first_attaining_min f (b # xs) = Some (min_from f b xs)"
proof -
  let ?m = "min_from f b xs"
  obtain pre post where
    eq: "b # xs = pre @ ?m # post" and
    pre: "\<forall>z\<in>set pre. f ?m < f z" and post: "\<forall>z\<in>set post. f ?m \<le> f z"
    using min_from_split [of b xs f] by blast
  let ?P = "\<lambda>y. list_all (\<lambda>z. f y \<le> f z) (pre @ ?m # post)"
  have "?P ?m"
    using pre post by (auto simp: list_all_iff)
  moreover have "\<forall>z\<in>set pre. \<not> ?P z"
    using pre by (auto simp: list_all_iff)
  ultimately have "find ?P (pre @ ?m # post) = Some ?m"
    by (rule find_after_prefix [rotated])
  then show ?thesis
    unfolding first_attaining_min_def eq [symmetric] .
qed

lemma max_from_as_min: "max_from f b xs = min_from (\<lambda>x. - f x) b xs"
  by (induction xs arbitrary: b) simp_all

lemma first_attaining_max_eq:
  "first_attaining_max f (b # xs) = Some (max_from f b xs)"
  using first_attaining_min_eq [of "\<lambda>x. - f x" b xs]
  by (simp add: first_attaining_min_def first_attaining_max_def max_from_as_min)

lemma min_from_map: "min_from (\<lambda>x. x) (f b) (map f xs) = f (min_from f b xs)"
  by (induction xs arbitrary: b) simp_all

lemma max_from_map: "max_from (\<lambda>x. x) (f b) (map f xs) = f (max_from f b xs)"
  by (induction xs arbitrary: b) simp_all

text \<open>
  Claim C8. On a non-empty subject list the statistics engine's \<open>min_subject\<close> is the
  name of the first entry, in input order, whose score no entry undercuts, and
  \<open>max_subject\<close> the name of the first entry whose score no entry exceeds; \<open>min\<close> and
  \<open>max\<close> are the scores of these entries.
\<close>

theorem extreme_subjects_first_occurrence:
  assumes "subjs \<noteq> []"
  shows "\<exists>st lo hi. calculate_statistics subjs = Inr st
    \<and> first_attaining_min score subjs = Some lo
    \<and> first_attaining_max score subjs = Some hi
    \<and> st ''min'' = Some (PFloat (score lo)) \<and> st ''min_subject'' = Some (PStr (name lo))
    \<and> st ''max'' = Some (PFloat (score hi)) \<and> st ''max_subject'' = Some (PStr (name hi))"
proof -
  from assms obtain b xs where subjs: "subjs = b # xs"
    by (cases subjs) auto
  obtain st where st: "calculate_statistics subjs = Inr st"
    and mn: "st ''min'' = Some (PFloat (min_from (\<lambda>x. x) (hd (map score subjs)) (tl (map score subjs))))"
    and mx: "st ''max'' = Some (PFloat (max_from (\<lambda>x. x) (hd (map score subjs)) (tl (map score subjs))))"
    and mns: "st ''min_subject'' = Some (PStr (name (min_from score (hd subjs) (tl subjs))))"
    and mxs: "st ''max_subject'' = Some (PStr (name (max_from score (hd subjs) (tl subjs))))"
    using calculate_statistics_nonempty [OF assms] by blast
  have "first_attaining_min score subjs = Some (min_from score b xs)"
    unfolding subjs by (rule first_attaining_min_eq)
  moreover have "first_attaining_max score subjs = Some (max_from score b xs)"
    unfolding subjs by (rule first_attaining_max_eq)
  moreover have "st ''min'' = Some (PFloat (score (min_from score b xs)))"
    using mn by (simp add: subjs min_from_map)
  moreover have "st ''max'' = Some (PFloat (score (max_from score b xs)))"
    using mx by (simp add: subjs max_from_map)
  moreover have "st ''min_subject'' = Some (PStr (name (min_from score b xs)))"
    using mns by (simp add: subjs)
  moreover have "st ''max_subject'' = Some (PStr (name (max_from score b xs)))"
    using mxs by (simp add: subjs)
  ultimately show ?thesis
    using st by blast
qed

theorem extreme_subjects_first_occurrence_witness:
  "subjects_ties \<noteq> []
   \<and> first_attaining_min score subjects_ties = Some (subject_of ''Sinh'' 3 1)
   \<and> first_attaining_max score subjects_ties = Some (subject_of ''Anh'' 9 2)
   \<and> (\<exists>st. calculate_statistics subjects_ties = Inr st
        \<and> st ''min'' = Some (PFloat 3) \<and> st ''min_subject'' = Some (PStr ''Sinh'')
        \<and> st ''max'' = Some (PFloat 9) \<and> st ''max_subject'' = Some (PStr ''Anh''))"
proof -
  have ne: "subjects_ties \<noteq> []"
    by (simp add: subjects_ties_def)
  have lo: "first_attaining_min score subjects_ties = Some (subject_of ''Sinh'' 3 1)"
    by (simp add: first_attaining_min_def subjects_ties_def subject_of_def)
  have hi: "first_attaining_max score subjects_ties = Some (subject_of ''Anh'' 9 2)"
    by (simp add: first_attaining_max_def subjects_ties_def subject_of_def)
  show ?thesis
    using extreme_subjects_first_occurrence [OF ne] ne
    by (simp add: lo hi) (simp add: subject_of_def)
qed



section \<open>The projection of a record\<close>

lemma weighted_gpa_valid:
  assumes "valid_subjects (subjects r)"
  shows "\<exists>g x. weighted_gpa r = Inr g \<and> g = py_round2 x"
proof (cases "subjects r = []")
  case True
  then have "weighted_gpa r = Inr 0 \<and> 0 = py_round2 0"
    by (simp add: weighted_gpa_def py_round2_zero)
  then show ?thesis by blast
next
  case False
  from weighted_gpa_nonempty [OF False assms] show ?thesis by blast
qed

lemma consistency_is_number:
  "\<exists>st c. calculate_statistics subjs = Inr st
     \<and> py_real (dict_get st ''consistency_score'' (PInt 0)) = Inr c"
proof (cases "subjs = []")
  case True
  then show ?thesis
    by (simp add: calculate_statistics_def dict_get_def py_real_def)
next
  case False
  from calculate_statistics_nonempty [OF False] obtain st where
    "calculate_statistics subjs = Inr st" and
    "st ''consistency_score'' =
          Some (if 1 < length subjs \<and> 0 < fl (spec_mean_score subjs)
                then PFloat (fsub 100 (fmul (fl (fl (sample_std_dev (map score subjs))
                                                   / fl (spec_mean_score subjs))) 100))
                else PInt 100)"
    by blast
  then show ?thesis
    by (simp add: dict_get_def py_real_def)
qed

lemma predict_performance_returns:
  assumes "calculate_statistics (subjects r) = Inr st" and "weighted_gpa r = Inr g"
    and "py_real (dict_get st ''consistency_score'' (PInt 0)) = Inr c"
  shows "predict_performance r =
     Inr \<lparr>current_gpa = g,
          predicted_next =
            py_round2 (min 10 (fadd g (fmul (fmul (fsub 10 g) (fl (c / 100))) (fl (3 / 10))))),
          improvement_potential =
            py_round2 (fmul (fmul (fsub 10 g) (fl (c / 100))) (fl (3 / 10))),
          confidence = (if 80 < c then Cao else if 60 < c then Trung_binh else Thap),
          recommendation = (if 8 \<le> g then Duy_tri else Cai_thien),
          focus_areas = map name (take 3 (sort_key score (subjects r)))\<rparr>"
  using assms by (simp add: predict_performance_def bind_err_def py_div_def Let_def)

lemma improvement_nonneg:
  assumes "g \<le> 10" and "0 \<le> c"
  shows "0 \<le> fmul (fmul (fsub 10 g) (fl (c / 100))) (fl (3 / 10))"
proof -
  have a: "0 \<le> fsub 10 g"
    unfolding fsub_def using assms(1) by (intro fl_nonneg) simp
  have b: "0 \<le> fl (c / 100)"
    using assms(2) by (intro fl_nonneg) simp
  have d: "0 \<le> fl (3 / 10)"
    by (intro fl_nonneg) simp
  have "0 \<le> fmul (fsub 10 g) (fl (c / 100))"
    unfolding fmul_def using a b by (intro fl_nonneg) simp
  then show ?thesis
    unfolding fmul_def using d by (intro fl_nonneg) simp
qed

lemma record_one_valid_subjects: "valid_subjects (subjects record_one)"
  by (simp add: valid_subjects_def record_one_def record_of_def subject_of_def
        SubjectInfo_post_init_def)

lemma record_one_weighted_gpa: "weighted_gpa record_one = Inr 8"
proof -
  have "weighted_gpa record_one = Inr (fl 8)"
    by code_simp
  then show ?thesis
    using fl_of_int [of 8] by simp
qed

text \<open>
  Claim C6. For every record of valid subject entries the projector returns a result.
  With \<open>g\<close> the weighted average and \<open>c\<close> the consistency score it computes, in
  double precision, the improvement \<^verbatim>\<open>(10 - g) * (c / 100) * 0.3\<close> and the prediction
  \<^verbatim>\<open>min(10, g + improvement)\<close>, and returns both rounded to two decimals. The returned
  prediction never exceeds 10; when \<open>g\<close> lies in [0, 10] and \<open>c\<close> in [0, 100] the
  computed improvement is not negative and the prediction, before and after rounding,
  is at least \<open>g\<close>.
\<close>

theorem predicted_next_bounds:
  assumes "valid_subjects (subjects r)"
  shows "\<exists>st g c p. calculate_statistics (subjects r) = Inr st \<and> weighted_gpa r = Inr g
    \<and> py_real (dict_get st ''consistency_score'' (PInt 0)) = Inr c
    \<and> predict_performance r = Inr p
    \<and> current_gpa p = g
    \<and> improvement_potential p =
         py_round2 (fmul (fmul (fsub 10 g) (fl (c / 100))) (fl (3 / 10)))
    \<and> predicted_next p =
         py_round2 (min 10 (fadd g (fmul (fmul (fsub 10 g) (fl (c / 100))) (fl (3 / 10)))))
    \<and> predicted_next p \<le> 10
    \<and> (0 \<le> g \<and> g \<le> 10 \<and> 0 \<le> c \<and> c \<le> 100 \<longrightarrow>
          0 \<le> fmul (fmul (fsub 10 g) (fl (c / 100))) (fl (3 / 10))
        \<and> g \<le> min 10 (fadd g (fmul (fmul (fsub 10 g) (fl (c / 100))) (fl (3 / 10))))
        \<and> g \<le> predicted_next p)"
proof -
  obtain g x where g: "weighted_gpa r = Inr g" and gr: "g = py_round2 x"
    using weighted_gpa_valid [OF assms] by blast
  obtain st c where st: "calculate_statistics (subjects r) = Inr st"
    and c: "py_real (dict_get st ''consistency_score'' (PInt 0)) = Inr c"
    using consistency_is_number by blast
  let ?imp = "fmul (fmul (fsub 10 g) (fl (c / 100))) (fl (3 / 10))"
  let ?p = "\<lparr>current_gpa = g,
          predicted_next = py_round2 (min 10 (fadd g ?imp)),
          improvement_potential = py_round2 ?imp,
          confidence = (if 80 < c then Cao else if 60 < c then Trung_binh else Thap),
          recommendation = (if 8 \<le> g then Duy_tri else Cai_thien),
          focus_areas = map name (take 3 (sort_key score (subjects r)))\<rparr>"
  have p: "predict_performance r = Inr ?p"
    by (rule predict_performance_returns [OF st g c])
  have "py_round2 (min 10 (fadd g ?imp)) \<le> py_round2 10"
    by (rule py_round2_mono) simp
  then have top: "predicted_next ?p \<le> 10"
    by (simp add: py_round2_ten)
  have low: "0 \<le> ?imp \<and> g \<le> min 10 (fadd g ?imp) \<and> g \<le> predicted_next ?p"
    if h: "0 \<le> g \<and> g \<le> 10 \<and> 0 \<le> c \<and> c \<le> 100"
  proof -
    from h have i: "0 \<le> ?imp" by (intro improvement_nonneg) simp_all
    have "fl g = g"
      unfolding gr py_round2_def by (rule fl_idem)
    moreover have "fl g \<le> fl (g + ?imp)"
      using i by (intro fl_mono) simp
    ultimately have "g \<le> fadd g ?imp"
      by (simp add: fadd_def)
    with h have m: "g \<le> min 10 (fadd g ?imp)" by simp
    then have "py_round2 g \<le> py_round2 (min 10 (fadd g ?imp))"
      by (rule py_round2_mono)
    moreover have "py_round2 g = g"
      using gr h by (intro py_round2_fixed) simp_all
    ultimately show ?thesis using i m by simp
  qed
  show ?thesis
    using st g c p top low by (intro exI [of _ st] exI [of _ g] exI [of _ c] exI [of _ ?p]) simp
qed

theorem predicted_next_bounds_witness:
  "valid_subjects (subjects record_one)
   \<and> weighted_gpa record_one = Inr 8
   \<and> (\<exists>st. calculate_statistics (subjects record_one) = Inr st
        \<and> py_real (dict_get st ''consistency_score'' (PInt 0)) = Inr 100)
   \<and> (\<exists>p. predict_performance record_one = Inr p
        \<and> current_gpa p = 8 \<and> improvement_potential p = fl (3 / 5)
        \<and> predicted_next p = fl (43 / 5) \<and> 8 \<le> predicted_next p \<and> predicted_next p \<le> 10)"
proof -
  note v = record_one_valid_subjects
  note g = record_one_weighted_gpa
  have ne: "subjects record_one \<noteq> []" and len: "length (subjects record_one) = 1"
    by (simp_all add: record_one_def record_of_def)
  obtain st where st: "calculate_statistics (subjects record_one) = Inr st"
    and cs: "st ''consistency_score'' = Some (PInt 100)"
    using calculate_statistics_nonempty [OF ne] by (auto simp: len)
  have c: "py_real (dict_get st ''consistency_score'' (PInt 0)) = Inr 100"
    by (simp add: cs dict_get_def py_real_def)
  have i: "py_round2 (fmul (fmul (fsub 10 8) (fl 1)) (fl (3 / 10))) = fl (3 / 5)"
    by code_simp
  have n: "py_round2 (min 10 (fadd 8 (fmul (fmul (fsub 10 8) (fl 1)) (fl (3 / 10)))))
             = fl (43 / 5)"
    by code_simp
  have "\<exists>p. predict_performance record_one = Inr p
        \<and> current_gpa p = 8 \<and> improvement_potential p = fl (3 / 5)
        \<and> predicted_next p = fl (43 / 5) \<and> 8 \<le> predicted_next p \<and> predicted_next p \<le> 10"
    using predicted_next_bounds [OF v] by (auto simp: g st c i n)
  with v g st c show ?thesis by blast
qed

text \<open>
  The constant \<^verbatim>\<open>0.3\<close> is a double below three tenths, so a product that would be
  a decimal tie in exact arithmetic falls below it: a single score of 9.75 gives the
  improvement 0.07, a single score of 0.25 the prediction 3.17.
\<close>

lemma improvement_below_tie:
  "py_round2 (fmul (fmul (fsub 10 (39 / 4)) (fl (100 / 100))) (fl (3 / 10))) = fl (7 / 100)"
  by code_simp

lemma prediction_below_tie:
  "py_round2 (min 10 (fadd (1 / 4) (fmul (fmul (fsub 10 (1 / 4)) (fl (100 / 100))) (fl (3 / 10)))))
     = fl (317 / 100)"
  by code_simp

lemma stable_ascending_sort: "stable_ascending xs (sort_key score xs)"
  by (simp add: stable_ascending_def list_all_iff sort_key_stable)

text \<open>
  Claim C7. For every record of valid subject entries the projector's focus areas are
  the names of the first three entries of the subject list put in ascending order of
  score with ties in input order; their number is the smaller of 3 and the number of
  subjects, and with at most three subjects all of them are named.
\<close>

theorem focus_areas_three_lowest:
  assumes "valid_subjects (subjects r)"
  shows "\<exists>p. predict_performance r = Inr p
    \<and> focus_areas p = map name (take 3 (sort_key score (subjects r)))
    \<and> stable_ascending (subjects r) (sort_key score (subjects r))
    \<and> length (focus_areas p) = min 3 (length (subjects r))
    \<and> (length (subjects r) \<le> 3 \<longrightarrow> focus_areas p = map name (sort_key score (subjects r)))"
proof -
  obtain g x where g: "weighted_gpa r = Inr g" and "g = py_round2 x"
    using weighted_gpa_valid [OF assms] by blast
  obtain st c where st: "calculate_statistics (subjects r) = Inr st"
    and c: "py_real (dict_get st ''consistency_score'' (PInt 0)) = Inr c"
    using consistency_is_number by blast
  show ?thesis
    by (simp add: predict_performance_returns [OF st g c] stable_ascending_sort)
qed

theorem focus_areas_three_lowest_witness:
  "valid_subjects (subjects record_ties)
   \<and> (\<exists>p. predict_performance record_ties = Inr p
        \<and> focus_areas p = [''Sinh'', ''Su'', ''Van''])
   \<and> stable_ascending (subjects record_ties)
        [subject_of ''Sinh'' 3 1, subject_of ''Su'' 3 1, subject_of ''Van'' 5 2,
         subject_of ''Ly'' 5 1, subject_of ''Toan'' 7 3, subject_of ''Anh'' 9 2,
         subject_of ''Hoa'' 9 1]
   \<and> valid_subjects (subjects record_three)
   \<and> length (subjects record_three) \<le> 3
   \<and> (\<exists>p. predict_performance record_three = Inr p
        \<and> focus_areas p = [''Anh'', ''Van'', ''Toan''])"
proof -
  have v: "valid_subjects (subjects record_ties)"
    by (simp add: valid_subjects_def record_ties_def subjects_ties_def record_of_def
          subject_of_def SubjectInfo_post_init_def)
  have s: "sort_key score (subjects record_ties) =
        [subject_of ''Sinh'' 3 1, subject_of ''Su'' 3 1, subject_of ''Van'' 5 2,
         subject_of ''Ly'' 5 1, subject_of ''Toan'' 7 3, subject_of ''Anh'' 9 2,
         subject_of ''Hoa'' 9 1]"
    by (simp add: record_ties_def subjects_ties_def record_of_def subject_of_def)
  have v3: "valid_subjects (subjects record_three)"
    by (simp add: valid_subjects_def record_three_def record_of_def
          subject_of_def SubjectInfo_post_init_def)
  have s3: "sort_key score (subjects record_three) =
        [subject_of ''Anh'' 7 1, subject_of ''Van'' 8 2, subject_of ''Toan'' 10 3]"
    by (simp add: record_three_def record_of_def subject_of_def)
  have l3: "length (subjects record_three) \<le> 3"
    by (simp add: record_three_def record_of_def)
  have n: "name (subject_of a b c) = a" for a b c
    by (simp add: subject_of_def)
  show ?thesis
    using focus_areas_three_lowest [OF v] focus_areas_three_lowest [OF v3] v v3 l3
    by (simp add: s s3 n) blast
qed



section \<open>Saving and reloading\<close>

lemma insert_subjects_finished:
  "insert_subjects fault k r subs rows = (True, rows')
   \<Longrightarrow> rows' = rows @ map (subject_row_of r) subs"
proof (induction subs arbitrary: k rows)
  case Nil
  then show ?case by simp
next
  case (Cons s subs)
  from Cons.prems
  have "insert_subjects fault (Suc k) r subs (rows @ [subject_row_of r s]) = (True, rows')"
    by (simp split: if_splits)
  from Cons.IH [OF this] show ?case by simp
qed

lemma insert_subjects_no_fault:
  "insert_subjects None k r subs rows = (True, rows @ map (subject_row_of r) subs)"
  by (induction subs arbitrary: k rows) auto

lemma load_subjects_saved:
  "valid_subjects subs \<Longrightarrow> load_subjects (map (subject_row_of r) subs) = Inr subs"
proof (induction subs)
  case Nil
  show ?case by simp
next
  case (Cons s subs)
  then have s: "SubjectInfo_post_init s = Inr s" and rest: "valid_subjects subs"
    by (simp_all add: valid_subjects_def)
  have eta: "\<lparr>name = name s, score = score s, weight = weight s, category = category s,
         notes_text = notes_text s\<rparr> = s"
    by simp
  from Cons.IH [OF rest] show ?case
    by (simp add: subject_row_of_def bind_err_def eta s)
qed

lemma filter_saved_rows:
  "filter (\<lambda>j. sj_record_id j = record_id r) (map (subject_row_of r) subs)
     = map (subject_row_of r) subs"
  by (induction subs) (simp_all add: subject_row_of_def)

lemma summary_row_of_valid:
  assumes "valid_subjects (subjects r)"
  shows "\<exists>sg wg lvl. summary_row_of r =
     Inr \<lparr>ar_record_id = record_id r, ar_student_id = student_id (student r),
          ar_semester = semester r, ar_exam_type = exam_type r, ar_simple_gpa = sg,
          ar_weighted_gpa = wg, ar_grade_level = lvl,
          ar_total_subjects = length (subjects r), ar_created_at = created_at r\<rparr>"
proof -
  obtain wg x where wg: "weighted_gpa r = Inr wg" and "wg = py_round2 x"
    using weighted_gpa_valid [OF assms] by blast
  have "\<exists>sg. simple_gpa r = Inr sg"
  proof (cases "subjects r = []")
    case True
    then show ?thesis by (simp add: simple_gpa_def)
  next
    case False
    from simple_gpa_nonempty [OF False] show ?thesis by blast
  qed
  then obtain sg where sg: "simple_gpa r = Inr sg" by blast
  show ?thesis
    by (simp add: summary_row_of_def sg wg grade_level_def bind_err_def)
qed

lemma joined_rows_after_save:
  assumes "ar_record_id row = rid" and "ar_student_id row = st_student_id srow"
  shows "joined_rows \<lparr>students = replace_student srow studs, subject_rows = rows,
                      academic_records = replace_record row ars\<rparr> rid = [(srow, row)]"
proof -
  have "filter (\<lambda>ar. ar_record_id ar = rid) (replace_record row ars) = [row]"
    using assms(1) by (simp add: replace_record_def filter_empty_conv)
  moreover have "filter (\<lambda>s. st_student_id s = ar_student_id row) (replace_student srow studs) = [srow]"
    using assms(2) by (simp add: replace_student_def filter_empty_conv)
  ultimately show ?thesis
    by (simp add: joined_rows_def)
qed

lemma load_subjects_append:
  "load_subjects xs = Inr a \<Longrightarrow> load_subjects ys = Inr b
   \<Longrightarrow> load_subjects (xs @ ys) = Inr (a @ b)"
proof (induction xs arbitrary: a)
  case Nil
  then show ?case by simp
next
  case (Cons x xs)
  from Cons.prems(1) obtain s rest where
    s: "SubjectInfo_post_init
          \<lparr>name = sj_subject_name x, score = sj_score x, weight = sj_weight x,
           category = sj_category x, notes_text = sj_notes x\<rparr> = Inr s"
    and rest: "load_subjects xs = Inr rest" and a: "a = s # rest"
    by (auto simp: bind_err_def split: sum.splits)
  from Cons.IH [OF rest Cons.prems(2)] show ?case
    by (simp add: bind_err_def s a)
qed

lemma save_record_success_state:
  assumes "save_record fault c r = (True, c')"
  shows "\<exists>row. summary_row_of r = Inr row
    \<and> in_transaction c' =
        \<lparr>students = replace_student (student_row_of r) (students (in_transaction c)),
         subject_rows = subject_rows (in_transaction c) @ map (subject_row_of r) (subjects r),
         academic_records = replace_record row (academic_records (in_transaction c))\<rparr>
    \<and> on_disk c' = in_transaction c'"
  using assms
  by (auto simp: save_record_def Let_def split: if_splits prod.splits sum.splits
        dest: insert_subjects_finished)

lemma save_record_no_fault_succeeds:
  assumes "valid_subjects (subjects r)"
  shows "fst (save_record None c r) = True"
proof -
  obtain row where "summary_row_of r = Inr row"
    using summary_row_of_valid [OF assms] by blast
  then show ?thesis
    by (simp add: save_record_def Let_def insert_subjects_no_fault)
qed

lemma load_after_save:
  assumes "valid_record r"
    and "save_record fault c r = (True, c')"
    and "load_subjects (filter (\<lambda>j. sj_record_id j = record_id r)
                          (subject_rows (in_transaction c))) = Inr old"
  shows "load_record_by_id c' (record_id r) = Some (r\<lparr>subjects := old @ subjects r\<rparr>)"
proof -
  have vs: "valid_subjects (subjects r)"
    and st: "StudentInfo_post_init (student r) = Inr (student r)"
    using assms(1) by (simp_all add: valid_record_def)
  obtain sg wg lvl where row: "summary_row_of r =
     Inr \<lparr>ar_record_id = record_id r, ar_student_id = student_id (student r),
          ar_semester = semester r, ar_exam_type = exam_type r, ar_simple_gpa = sg,
          ar_weighted_gpa = wg, ar_grade_level = lvl,
          ar_total_subjects = length (subjects r), ar_created_at = created_at r\<rparr>"
    (is "_ = Inr ?row")
    using summary_row_of_valid [OF vs] by blast
  let ?t = "\<lparr>students = replace_student (student_row_of r) (students (in_transaction c)),
            subject_rows = subject_rows (in_transaction c) @ map (subject_row_of r) (subjects r),
            academic_records = replace_record ?row (academic_records (in_transaction c))\<rparr>"
  have c': "in_transaction c' = ?t"
    using save_record_success_state [OF assms(2)] row by auto
  have j: "joined_rows ?t (record_id r) = [(student_row_of r, ?row)]"
    by (rule joined_rows_after_save) (simp_all add: student_row_of_def)
  have "load_subjects (filter (\<lambda>j. sj_record_id j = record_id r) (subject_rows (in_transaction c))
           @ map (subject_row_of r) (subjects r)) = Inr (old @ subjects r)"
    by (rule load_subjects_append [OF assms(3) load_subjects_saved [OF vs]])
  then have s: "load_subjects (filter (\<lambda>j. sj_record_id j = record_id r) (subject_rows ?t))
             = Inr (old @ subjects r)"
    by (simp add: filter_saved_rows)
  have stud: "\<lparr>student_id = st_student_id (student_row_of r),
                full_name = st_full_name (student_row_of r),
                class_name = st_class_name (student_row_of r),
                academic_year = st_academic_year (student_row_of r),
                date_of_birth = st_date_of_birth (student_row_of r),
                gender = st_gender (student_row_of r),
                email = st_email (student_row_of r),
                phone = st_phone (student_row_of r)\<rparr> = student r"
    by (simp add: student_row_of_def)
  show ?thesis
    unfolding load_record_by_id_def c' j s
    by (simp add: stud st)
qed

text \<open>
  Take a record whose student and subjects passed their checks, and a store whose
  connection sees no subject row tagged with the record's id. If \<open>save_record\<close>
  reports success, \<open>load_record_by_id\<close> with the same id returns that very record: the
  same student fields, semester, exam type, creation time and id, and the same subject
  entries in the same order.
\<close>

lemma save_then_load_fresh:
  assumes "valid_record r"
    and "filter (\<lambda>j. sj_record_id j = record_id r) (subject_rows (in_transaction c)) = []"
    and "save_record fault c r = (True, c')"
  shows "load_record_by_id c' (record_id r) = Some r"
proof -
  have "load_subjects (filter (\<lambda>j. sj_record_id j = record_id r)
                          (subject_rows (in_transaction c))) = Inr []"
    by (simp add: assms(2))
  from load_after_save [OF assms(1) assms(3) this] show ?thesis
    by simp
qed

lemma record_three_valid: "valid_record record_three"
  by (simp add: valid_record_def valid_subjects_def record_three_def record_of_def
        subject_of_def SubjectInfo_post_init_def StudentInfo_post_init_def student_an_def
        student_id_matches_def id_char_def)

lemma saved_once_succeeds:
  "save_record None initialize_database record_three = (True, snd saved_once)"
  using save_record_no_fault_succeeds [of record_three initialize_database] record_three_valid
  by (simp add: saved_once_def valid_record_def prod_eq_iff)

lemma saved_twice_succeeds:
  "save_record None (snd saved_once) record_three = (True, snd saved_twice)"
  using save_record_no_fault_succeeds [of record_three "snd saved_once"] record_three_valid
  by (simp add: saved_twice_def valid_record_def prod_eq_iff)

lemma saved_once_loads:
  "load_record_by_id (snd saved_once) (record_id record_three) = Some record_three"
proof -
  have e: "filter (\<lambda>j. sj_record_id j = record_id record_three)
        (subject_rows (in_transaction initialize_database)) = []"
    by (simp add: initialize_database_def empty_tables_def)
  show ?thesis
    by (rule save_then_load_fresh [OF record_three_valid e saved_once_succeeds])
qed

lemma record_three_summary:
  "\<exists>row. summary_row_of record_three = Inr row \<and> ar_record_id row = record_id record_three
     \<and> ar_total_subjects row = 3"
proof -
  have "valid_subjects (subjects record_three)"
    using record_three_valid by (simp add: valid_record_def)
  from summary_row_of_valid [OF this] show ?thesis
    by (auto simp: record_three_def record_of_def)
qed

lemma saved_twice_tables:
  "length (students (on_disk (snd saved_twice))) = 1
   \<and> map ar_total_subjects (academic_records (on_disk (snd saved_twice))) = [3]
   \<and> length (subject_rows (on_disk (snd saved_twice))) = 6"
proof -
  obtain row where row: "summary_row_of record_three = Inr row"
    and rid: "ar_record_id row = record_id record_three" and n: "ar_total_subjects row = 3"
    using record_three_summary by blast
  have one: "in_transaction (snd saved_once) =
        \<lparr>students = [student_row_of record_three],
         subject_rows = map (subject_row_of record_three) (subjects record_three),
         academic_records = [row]\<rparr>"
    using save_record_success_state [OF saved_once_succeeds] row
    by (auto simp: initialize_database_def empty_tables_def replace_student_def
          replace_record_def)
  have "on_disk (snd saved_twice) =
        \<lparr>students = [student_row_of record_three],
         subject_rows = map (subject_row_of record_three) (subjects record_three)
                          @ map (subject_row_of record_three) (subjects record_three),
         academic_records = [row]\<rparr>"
    using save_record_success_state [OF saved_twice_succeeds] row
    by (auto simp: one replace_student_def replace_record_def rid)
  then show ?thesis
    by (simp add: n record_three_def record_of_def)
qed

lemma saved_once_rows:
  "filter (\<lambda>j. sj_record_id j = record_id record_three)
        (subject_rows (in_transaction (snd saved_once)))
     = map (subject_row_of record_three) (subjects record_three)"
  using save_record_success_state [OF saved_once_succeeds]
  by (auto simp: initialize_database_def empty_tables_def filter_saved_rows)

text \<open>
  Claim C9 says that a record saved with success is loaded back with the identical
  ordered subject list. \<open>save_record\<close> writes the student row and the summary row with
  \<^verbatim>\<open>INSERT OR REPLACE\<close> and the subject rows with a plain \<^verbatim>\<open>INSERT\<close>, and never
  removes the subject rows an earlier save of the same record id left. Saving
  \<open>record_three\<close> on a fresh database and loading it returns the record; saving the
  same record a second time succeeds as well, and then the store holds one student row,
  one summary row counting 3 subjects, and 6 subject rows, and the reload returns every
  subject twice.
\<close>

theorem resave_duplicates_subjects:
  "fst saved_once = True
   \<and> load_record_by_id (snd saved_once) (record_id record_three) = Some record_three
   \<and> fst saved_twice = True
   \<and> length (students (on_disk (snd saved_twice))) = 1
   \<and> map ar_total_subjects (academic_records (on_disk (snd saved_twice))) = [3]
   \<and> length (subject_rows (on_disk (snd saved_twice))) = 6
   \<and> load_record_by_id (snd saved_twice) (record_id record_three)
       = Some (record_three\<lparr>subjects := subjects record_three @ subjects record_three\<rparr>)
   \<and> load_record_by_id (snd saved_twice) (record_id record_three) \<noteq> Some record_three"
proof -
  have vs: "valid_subjects (subjects record_three)"
    using record_three_valid by (simp add: valid_record_def)
  have old: "load_subjects (filter (\<lambda>j. sj_record_id j = record_id record_three)
        (subject_rows (in_transaction (snd saved_once)))) = Inr (subjects record_three)"
    unfolding saved_once_rows by (rule load_subjects_saved [OF vs])
  have l: "load_record_by_id (snd saved_twice) (record_id record_three)
       = Some (record_three\<lparr>subjects := subjects record_three @ subjects record_three\<rparr>)"
    by (rule load_after_save [OF record_three_valid saved_twice_succeeds old])
  have "fst saved_once = True" "fst saved_twice = True"
    using vs by (simp_all add: saved_once_def saved_twice_def save_record_no_fault_succeeds)
  moreover have "subjects record_three \<noteq> []"
    by (simp add: record_three_def record_of_def)
  then have "record_three\<lparr>subjects := subjects record_three @ subjects record_three\<rparr>
               \<noteq> record_three"
    by (metis AcademicRecord.select_convs(4) AcademicRecord.surjective
          AcademicRecord.update_convs(4) append_self_conv)
  ultimately show ?thesis
    using l saved_once_loads saved_twice_tables by simp
qed

lemma record_one_gpas:
  "simple_gpa record_one = Inr 8" "weighted_gpa record_one = Inr 8"
  "grade_level record_one = Inr EXCELLENT"
proof -
  have "simple_gpa record_one = Inr (fl 8)"
    by code_simp
  then show "simple_gpa record_one = Inr 8"
    using fl_of_int [of 8] by simp
  show w: "weighted_gpa record_one = Inr 8"
    by (rule record_one_weighted_gpa)
  have "level_of 8 = EXCELLENT"
    by (simp add: level_of_def GradeLevel_members_def)
  then show "grade_level record_one = Inr EXCELLENT"
    by (simp add: grade_level_def w bind_err_def)
qed

lemma record_one_subjects: "subjects record_one = [subject_of ''Toan'' 8 2]"
  by (simp add: record_one_def record_of_def)

lemma record_one_summary:
  "summary_row_of record_one =
     Inr \<lparr>ar_record_id = record_id record_one,
          ar_student_id = student_id (student record_one),
          ar_semester = semester record_one, ar_exam_type = exam_type record_one,
          ar_simple_gpa = 8, ar_weighted_gpa = 8, ar_grade_level = EXCELLENT,
          ar_total_subjects = 1, ar_created_at = created_at record_one\<rparr>"
  by (simp add: summary_row_of_def record_one_gpas bind_err_def record_one_subjects)

lemma after_failed_save_eq:
  "after_failed_save =
     (False, \<lparr>on_disk = empty_tables,
              in_transaction =
                \<lparr>students = [student_row_of record_one],
                 subject_rows = [subject_row_of record_one (subject_of ''Toan'' 8 2)],
                 academic_records = []\<rparr>\<rparr>)"
  by (simp add: after_failed_save_def save_record_def initialize_database_def empty_tables_def
        replace_student_def record_one_summary record_one_subjects Let_def)

lemma record_one_valid: "valid_record record_one"
  by (simp add: valid_record_def valid_subjects_def record_one_def record_of_def
        subject_of_def SubjectInfo_post_init_def StudentInfo_post_init_def student_an_def
        student_id_matches_def id_char_def)

text \<open>
  Claim C2 says a failed \<open>save_record\<close> leaves no partial write observable afterwards.
  The handler returns \<^verbatim>\<open>False\<close> without rolling the transaction back. On a fresh
  database, with the summary upsert of \<open>record_one\<close> failing: the call reports failure,
  nothing is committed, but the connection holds the student row and the subject row
  and no summary row. The next, successful, save of the same record commits the row of
  the failed call with its own, and the reload returns the subject twice.
\<close>

theorem failed_save_is_not_rolled_back:
  "fst after_failed_save = False
   \<and> on_disk (snd after_failed_save) = empty_tables
   \<and> students (in_transaction (snd after_failed_save)) = [student_row_of record_one]
   \<and> subject_rows (in_transaction (snd after_failed_save))
       = [subject_row_of record_one (subject_of ''Toan'' 8 2)]
   \<and> academic_records (in_transaction (snd after_failed_save)) = []
   \<and> fst after_retry = True
   \<and> subject_rows (on_disk (snd after_retry))
       = [subject_row_of record_one (subject_of ''Toan'' 8 2),
          subject_row_of record_one (subject_of ''Toan'' 8 2)]
   \<and> load_record_by_id (snd after_retry) (record_id record_one)
       = Some (record_one\<lparr>subjects := [subject_of ''Toan'' 8 2, subject_of ''Toan'' 8 2]\<rparr>)"
proof -
  have vs: "valid_subjects (subjects record_one)"
    using record_one_valid by (simp add: valid_record_def)
  have ok: "fst after_retry = True"
    using vs by (simp add: after_retry_def save_record_no_fault_succeeds)
  then have r: "save_record None (snd after_failed_save) record_one = (True, snd after_retry)"
    by (simp add: after_retry_def prod_eq_iff)
  have "load_subjects [subject_row_of record_one (subject_of ''Toan'' 8 2)]
          = Inr [subject_of ''Toan'' 8 2]"
    using load_subjects_saved [OF vs, of record_one] by (simp add: record_one_subjects)
  then have old: "load_subjects (filter (\<lambda>j. sj_record_id j = record_id record_one)
        (subject_rows (in_transaction (snd after_failed_save)))) = Inr [subject_of ''Toan'' 8 2]"
    by (simp add: after_failed_save_eq subject_row_of_def)
  have l: "load_record_by_id (snd after_retry) (record_id record_one)
       = Some (record_one\<lparr>subjects := [subject_of ''Toan'' 8 2] @ subjects record_one\<rparr>)"
    by (rule load_after_save [OF record_one_valid r old])
  have rows: "subject_rows (on_disk (snd after_retry))
       = [subject_row_of record_one (subject_of ''Toan'' 8 2),
          subject_row_of record_one (subject_of ''Toan'' 8 2)]"
    using save_record_success_state [OF r]
    by (auto simp: after_failed_save_eq record_one_subjects)
  show ?thesis
    using ok l rows by (simp add: after_failed_save_eq record_one_subjects)
qed

end
